theory Spec2Isabelle
  imports Main
begin

section \<open>Data model of \<^verbatim>\<open>song_ranking.py\<close>\<close>

text \<open>
  Exceptions are values. \<open>KeyError k\<close> is a dictionary read of a missing key \<open>k\<close>,
  \<open>IndexError\<close> a list read out of range, \<open>TypeError\<close> a subscript of \<^verbatim>\<open>None\<close>,
  \<open>ValueError\<close> what \<^verbatim>\<open>datetime.strptime\<close> raises on a string that is not in the
  format, and \<open>ApiError\<close> any exception raised inside the catalog client.
\<close>

datatype pyerr =
    KeyError string
  | IndexError
  | TypeError
  | ValueError string
  | ApiError string

text \<open>
  A song is the dictionary the program builds in \<^verbatim>\<open>search_spotify\<close> and
  \<^verbatim>\<open>get_spotify_suggestions\<close> and stores in \<^verbatim>\<open>rankings.json\<close>. The keys
  \<^verbatim>\<open>id\<close>, \<^verbatim>\<open>name\<close>, \<^verbatim>\<open>artist\<close>, \<^verbatim>\<open>full_name\<close> and \<^verbatim>\<open>image_url\<close> are always
  present; the value of \<^verbatim>\<open>image_url\<close> may be \<^verbatim>\<open>None\<close>. The keys \<^verbatim>\<open>release_year\<close>,
  \<^verbatim>\<open>play_count\<close> and \<^verbatim>\<open>rank\<close> may be missing from the dictionary: for these three
  fields \<open>None\<close> stands for "the key is not in the dictionary". Equality of records is
  equality of dictionaries.
\<close>

record song =
  song_id :: string
  name :: string
  artist :: string
  full_name :: string
  image_url :: "string option"
  release_year :: "string option"
  play_count :: "int option"
  rank :: "int option"

section \<open>Rank allocator\<close>

text \<open>
  The loop \<^verbatim>\<open>for rank in range(1, 2001)\<close> of \<^verbatim>\<open>get_next_available_rank\<close>, entered
  at \<open>r\<close>, with the fallback \<^verbatim>\<open>return 2000\<close> behind it.
\<close>

function scan_ranks :: "int set \<Rightarrow> int \<Rightarrow> int" where
  "scan_ranks current_ranks r =
     (if r < 2001
      then (if r \<notin> current_ranks then r else scan_ranks current_ranks (r + 1))
      else 2000)"
  by pat_completeness auto
termination
  by (relation "measure (\<lambda>(current_ranks, r). nat (2001 - r))") auto

declare scan_ranks.simps [simp del]

text \<open>
  The set comprehension \<^verbatim>\<open>{song['rank'] for song in ranked_songs}\<close> reads the key
  \<^verbatim>\<open>rank\<close> of every entry and raises at the first entry without it.
\<close>

fun ranks_of :: "song list \<Rightarrow> pyerr + int list" where
  "ranks_of [] = Inr []"
| "ranks_of (s # ss) =
     (case rank s of
        None \<Rightarrow> Inl (KeyError ''rank'')
      | Some r \<Rightarrow> (case ranks_of ss of Inl e \<Rightarrow> Inl e | Inr rs \<Rightarrow> Inr (r # rs)))"

definition get_next_available_rank :: "song list \<Rightarrow> pyerr + int" where
  "get_next_available_rank ranked_songs =
     (if ranked_songs = [] then Inr 1
      else (case ranks_of ranked_songs of
              Inl e \<Rightarrow> Inl e
            | Inr rs \<Rightarrow> Inr (scan_ranks (set rs) 1)))"

text \<open>The ranks held by the entries of a store.\<close>

definition store_ranks :: "song list \<Rightarrow> int set" where
  "store_ranks ranked_songs = {r. \<exists>s \<in> set ranked_songs. rank s = Some r}"

definition all_ranked :: "song list \<Rightarrow> bool" where
  "all_ranked ranked_songs = list_all (\<lambda>s. rank s \<noteq> None) ranked_songs"

text \<open>A track record with the given id, and a ranked entry made of it.\<close>

definition example_track :: "string \<Rightarrow> song" where
  "example_track i =
     \<lparr>song_id = i, name = ''Song'', artist = ''Band'', full_name = ''Song - Band'',
      image_url = Some ''http://img/1'', release_year = Some ''1999'',
      play_count = None, rank = None\<rparr>"

definition example_entry :: "string \<Rightarrow> int \<Rightarrow> song" where
  "example_entry i r = (example_track i)\<lparr>rank := Some r\<rparr>"

section \<open>Catalog items and their normalisation\<close>

text \<open>
  A field of a raw catalog object that the program reads as a string: the key may be
  missing (\<open>Absent\<close>), hold JSON \<^verbatim>\<open>null\<close> (\<open>Null\<close>), or hold a string.
\<close>

datatype field = Absent | Null | Str string

text \<open>
  A track object as the catalog documents it, with every key that the program reads:
  \<^verbatim>\<open>track['id']\<close>, \<^verbatim>\<open>track['name']\<close>, the names of \<^verbatim>\<open>track['artists']\<close> in
  order, the urls of \<^verbatim>\<open>track['album']['images']\<close> in order, and
  \<^verbatim>\<open>track['album']['release_date']\<close>, which alone may be missing. The clients of the
  catalog answer with such objects. What the normalisers do with an object that lacks
  another key is the matter of \<open>track_object\<close> below.
\<close>

record raw_track =
  track_id :: string
  track_name :: string
  artists :: "string list"
  images :: "string list"
  release_date :: field

text \<open>An item of the recently-played list: \<^verbatim>\<open>item['track']['id']\<close> and \<^verbatim>\<open>item['played_at']\<close>.\<close>

record recent_item =
  item_track_id :: string
  played_at :: string

text \<open>
  The catalog client \<^verbatim>\<open>sp\<close>: what each of its four calls answers, an exception or
  the list (the object) under \<^verbatim>\<open>['items']\<close>.
\<close>

record spotify =
  search :: "string \<Rightarrow> pyerr + raw_track list"
  current_user_top_tracks :: "pyerr + raw_track list"
  current_user_recently_played :: "pyerr + recent_item list"
  track :: "string \<Rightarrow> pyerr + raw_track"

text \<open>\<^verbatim>\<open>str(e)\<close> of an exception.\<close>

fun str_error :: "pyerr \<Rightarrow> string" where
  "str_error (KeyError k) = [CHR 0x27] @ k @ [CHR 0x27]"
| "str_error IndexError = ''list index out of range''"
| "str_error TypeError = [CHR 0x27] @ ''NoneType'' @ [CHR 0x27] @ '' object is not subscriptable''"
| "str_error (ValueError m) = m"
| "str_error (ApiError m) = m"

text \<open>
  \<^verbatim>\<open>track['album']['release_date'][:4]\<close>: a missing key raises, \<^verbatim>\<open>None\<close> cannot be
  sliced, and a string gives its first four characters (all of it when it is shorter),
  whatever it holds.
\<close>

definition release_year_of :: "raw_track \<Rightarrow> pyerr + string" where
  "release_year_of t =
     (case release_date t of
        Absent \<Rightarrow> Inl (KeyError ''release_date'')
      | Null \<Rightarrow> Inl TypeError
      | Str d \<Rightarrow> Inr (take 4 d))"

text \<open>
  \<^verbatim>\<open>track['album']['images'][0]['url'] if track['album']['images'] else None\<close>.
\<close>

definition image_url_of :: "raw_track \<Rightarrow> string option" where
  "image_url_of t = (case images t of [] \<Rightarrow> None | u # _ \<Rightarrow> Some u)"

text \<open>
  The dictionary that \<^verbatim>\<open>search_spotify\<close> builds from one documented track. The
  entries of the dictionary display are evaluated in order: \<^verbatim>\<open>track['artists'][0]\<close>
  is read before the release date. It is \<open>search_dict\<close> below on the objects that have
  every key.
\<close>

definition search_record :: "raw_track \<Rightarrow> pyerr + song" where
  "search_record t =
     (case artists t of
        [] \<Rightarrow> Inl IndexError
      | a # _ \<Rightarrow>
          (case release_year_of t of
             Inl e \<Rightarrow> Inl e
           | Inr y \<Rightarrow>
               Inr \<lparr>song_id = track_id t, name = track_name t, artist = a,
                    full_name = track_name t @ '' - '' @ a,
                    image_url = image_url_of t, release_year = Some y,
                    play_count = None, rank = None\<rparr>))"

text \<open>The list comprehension of \<^verbatim>\<open>search_spotify\<close> stops at the first track that raises.\<close>

fun search_records :: "raw_track list \<Rightarrow> pyerr + song list" where
  "search_records [] = Inr []"
| "search_records (t # ts) =
     (case search_record t of
        Inl e \<Rightarrow> Inl e
      | Inr s \<Rightarrow> (case search_records ts of Inl e \<Rightarrow> Inl e | Inr ss \<Rightarrow> Inr (s # ss)))"

text \<open>
  \<^verbatim>\<open>search_spotify\<close> has no exception handler: what the client or the comprehension
  raises reaches the caller.
\<close>

definition search_spotify :: "spotify \<Rightarrow> string \<Rightarrow> pyerr + song list" where
  "search_spotify sp query =
     (if query = [] then Inr []
      else (case search sp query of Inl e \<Rightarrow> Inl e | Inr items \<Rightarrow> search_records items))"

section \<open>Suggestions\<close>

text \<open>
  365 days in milliseconds, and \<^verbatim>\<open>year_ago = now - (365 * 24 * 60 * 60 * 1000)\<close>.
\<close>

definition year_ago :: "int \<Rightarrow> int" where
  "year_ago now = now - (365 * 24 * 60 * 60 * 1000)"

text \<open>\<^verbatim>\<open>play_counts[track_id] = play_counts.get(track_id, 0) + 1\<close>.\<close>

definition count_play :: "(string \<rightharpoonup> int) \<Rightarrow> string \<Rightarrow> (string \<rightharpoonup> int)" where
  "count_play play_counts tid =
     play_counts(tid \<mapsto> (case play_counts tid of None \<Rightarrow> 0 | Some c \<Rightarrow> c) + 1)"

text \<open>
  The host that the program runs on, as far as line 38 depends on it.
  \<open>strptime_ms\<close> is what \<^verbatim>\<open>datetime.strptime(s, '%Y-%m-%dT%H:%M:%S.%fZ')\<close> reads:
  \<^verbatim>\<open>ValueError\<close> for a string that is not in the format, and otherwise the naive
  datetime, given as the milliseconds from 1970-01-01T00:00:00 to it on the calendar
  (digits of the fraction beyond the third are cut). The \<^verbatim>\<open>Z\<close> of the format is a
  literal: the datetime carries no time zone. As \<^verbatim>\<open>played_at\<close> is a UTC timestamp, the
  same number is the instant that the string denotes, in milliseconds since the epoch.
  \<open>utcoffset_ms\<close> is the offset from UTC of the local time zone of the host at a naive
  local datetime: 0 on a host that runs on UTC, 3600000 in Amsterdam in winter.
\<close>

record host =
  strptime_ms :: "string \<Rightarrow> pyerr + int"
  utcoffset_ms :: "int \<Rightarrow> int"

text \<open>
  \<^verbatim>\<open>int(datetime.strptime(item['played_at'], ...).timestamp() * 1000)\<close>: the method
  \<^verbatim>\<open>timestamp\<close> of a naive datetime reads it as local time of the host, so the offset
  of the host is taken off the number read. The product and \<^verbatim>\<open>int\<close> are taken at their
  exact value.
\<close>

definition played_at_ms :: "host \<Rightarrow> string \<Rightarrow> pyerr + int" where
  "played_at_ms h s =
     (case strptime_ms h s of
        Inl e \<Rightarrow> Inl e
      | Inr naive \<Rightarrow> Inr (naive - utcoffset_ms h naive))"

text \<open>
  The loop over \<^verbatim>\<open>recent_tracks\<close>. The parameter \<open>timestamp_ms\<close> is the conversion
  of line 38, \<open>played_at_ms h\<close> on the host \<open>h\<close>.
\<close>

fun count_plays ::
  "(string \<Rightarrow> pyerr + int) \<Rightarrow> int \<Rightarrow> (string \<rightharpoonup> int) \<Rightarrow> recent_item list
   \<Rightarrow> pyerr + (string \<rightharpoonup> int)" where
  "count_plays timestamp_ms now play_counts [] = Inr play_counts"
| "count_plays timestamp_ms now play_counts (item # items) =
     (case timestamp_ms (played_at item) of
        Inl e \<Rightarrow> Inl e
      | Inr played \<Rightarrow>
          count_plays timestamp_ms now
            (if played > year_ago now then count_play play_counts (item_track_id item)
             else play_counts)
            items)"

text \<open>
  The dictionary appended for one documented top track. The source reads the image and
  the release date first and the first artist afterwards, inside the dictionary display.
  It is \<open>suggestion_dict\<close> below on the objects that have every key.
\<close>

definition suggestion_record :: "(string \<rightharpoonup> int) \<Rightarrow> raw_track \<Rightarrow> pyerr + song" where
  "suggestion_record play_counts t =
     (case release_year_of t of
        Inl e \<Rightarrow> Inl e
      | Inr y \<Rightarrow>
          (case artists t of
             [] \<Rightarrow> Inl IndexError
           | a # _ \<Rightarrow>
               Inr \<lparr>song_id = track_id t, name = track_name t, artist = a,
                    full_name = track_name t @ '' - '' @ a,
                    image_url = image_url_of t, release_year = Some y,
                    play_count =
                      Some (case play_counts (track_id t) of None \<Rightarrow> 0 | Some c \<Rightarrow> c),
                    rank = None\<rparr>))"

text \<open>
  The loop over \<^verbatim>\<open>top_tracks\<close>, with the set \<^verbatim>\<open>seen_ids\<close> and the list
  \<^verbatim>\<open>suggestions\<close> built so far.
\<close>

fun collect_suggestions ::
  "(string \<rightharpoonup> int) \<Rightarrow> string set \<Rightarrow> song list \<Rightarrow> raw_track list \<Rightarrow> pyerr + song list" where
  "collect_suggestions play_counts seen_ids suggs [] = Inr suggs"
| "collect_suggestions play_counts seen_ids suggs (t # ts) =
     (if track_id t \<notin> seen_ids
      then (case suggestion_record play_counts t of
              Inl e \<Rightarrow> Inl e
            | Inr s \<Rightarrow>
                collect_suggestions play_counts (insert (track_id t) seen_ids)
                  (suggs @ [s]) ts)
      else collect_suggestions play_counts seen_ids suggs ts)"

text \<open>
  The body of the \<^verbatim>\<open>try\<close> block of \<^verbatim>\<open>get_spotify_suggestions\<close>: the lines it
  prints and how it ends. \<open>now\<close> stands for \<^verbatim>\<open>int(time.time() * 1000)\<close>.
\<close>

definition suggestions_try ::
  "spotify \<Rightarrow> (string \<Rightarrow> pyerr + int) \<Rightarrow> int \<Rightarrow> string list \<times> (pyerr + song list)" where
  "suggestions_try sp timestamp_ms now =
     (case current_user_top_tracks sp of
        Inl e \<Rightarrow> ([''Fetching top tracks...''], Inl e)
      | Inr top_tracks \<Rightarrow>
          (case current_user_recently_played sp of
             Inl e \<Rightarrow> ([''Fetching top tracks...'', ''Fetching recent tracks...''], Inl e)
           | Inr recent_tracks \<Rightarrow>
               ([''Fetching top tracks...'', ''Fetching recent tracks...''],
                (case count_plays timestamp_ms now Map.empty recent_tracks of
                   Inl e \<Rightarrow> Inl e
                 | Inr play_counts \<Rightarrow> collect_suggestions play_counts {} [] top_tracks))))"

text \<open>
  \<^verbatim>\<open>get_spotify_suggestions\<close>: the suggestions it returns and the lines it prints.
  The handler \<^verbatim>\<open>except Exception\<close> prints the error and returns the empty list.
\<close>

definition get_spotify_suggestions ::
  "spotify \<Rightarrow> (string \<Rightarrow> pyerr + int) \<Rightarrow> int \<Rightarrow> song list \<times> string list" where
  "get_spotify_suggestions sp timestamp_ms now =
     (case suggestions_try sp timestamp_ms now of
        (printed, Inl e) \<Rightarrow> ([], printed @ [''Error getting suggestions: '' @ str_error e])
      | (printed, Inr suggs) \<Rightarrow> (suggs, printed))"

text \<open>
  Stable deduplication as the specification words it: the first occurrence of every
  element is kept, in the order of the list.
\<close>

fun stable_dedup :: "'a list \<Rightarrow> 'a list" where
  "stable_dedup [] = []"
| "stable_dedup (x # xs) = x # stable_dedup (filter (\<lambda>y. y \<noteq> x) xs)"

text \<open>
  \<open>first_record play_counts top_tracks s i\<close>: the record \<open>s\<close> is the one built from the
  first track of \<open>top_tracks\<close> whose id is \<open>i\<close>.
\<close>

definition first_record :: "(string \<rightharpoonup> int) \<Rightarrow> raw_track list \<Rightarrow> song \<Rightarrow> string \<Rightarrow> bool" where
  "first_record play_counts top_tracks s i =
     (case find (\<lambda>t. track_id t = i) top_tracks of
        None \<Rightarrow> False
      | Some t \<Rightarrow> suggestion_record play_counts t = Inr s)"

text \<open>
  A catalog for the examples: three top tracks of which the third repeats the first,
  four recent plays of which one is 400 days old and one is of a track that is not a
  top track, and a single-track lookup that fails.
\<close>

definition example_raw :: "string \<Rightarrow> raw_track" where
  "example_raw i =
     \<lparr>track_id = i, track_name = ''Song'', artists = [''Band'', ''Guest''],
      images = [''http://img/1'', ''http://img/2''], release_date = Str ''1999-05-01''\<rparr>"

definition example_ms :: "string \<Rightarrow> pyerr + int" where
  "example_ms s =
     (if s = ''new'' then Inr 34000000000
      else if s = ''old'' then Inr 0
      else Inl (ValueError ''time data does not match format''))"

definition example_sp :: spotify where
  "example_sp =
     \<lparr>search = (\<lambda>q. Inr [example_raw ''a'']),
      current_user_top_tracks = Inr [example_raw ''a'', example_raw ''b'', example_raw ''a''],
      current_user_recently_played =
        Inr [\<lparr>item_track_id = ''a'', played_at = ''new''\<rparr>,
             \<lparr>item_track_id = ''a'', played_at = ''old''\<rparr>,
             \<lparr>item_track_id = ''c'', played_at = ''new''\<rparr>,
             \<lparr>item_track_id = ''a'', played_at = ''new''\<rparr>],
      track = (\<lambda>i. Inl (ApiError ''403''))\<rparr>"

text \<open>
  The plays of a track that the specification counts: the items of the recently-played
  list with the track's id whose \<^verbatim>\<open>played_at\<close> timestamp, the instant that the string
  denotes, lies within 365 days of \<open>now\<close>, that is, is not more than 365 days old.
\<close>

definition plays_within_year :: "host \<Rightarrow> int \<Rightarrow> recent_item list \<Rightarrow> string \<Rightarrow> int" where
  "plays_within_year h now recent_tracks tid =
     int (length (filter (\<lambda>item. item_track_id item = tid
                          \<and> (case strptime_ms h (played_at item) of
                                Inl e \<Rightarrow> False
                              | Inr played \<Rightarrow> now - played \<le> 365 * 86400000))
                    recent_tracks))"

text \<open>
  The plays of a track whose \<^verbatim>\<open>played_at\<close> timestamp is later than the instant 365
  days before \<open>now\<close>.
\<close>

definition plays_after_year_ago :: "host \<Rightarrow> int \<Rightarrow> recent_item list \<Rightarrow> string \<Rightarrow> int" where
  "plays_after_year_ago h now recent_tracks tid =
     int (length (filter (\<lambda>item. item_track_id item = tid
                          \<and> (case strptime_ms h (played_at item) of
                                Inl e \<Rightarrow> False
                              | Inr played \<Rightarrow> now - 365 * 86400000 < played))
                    recent_tracks))"

text \<open>
  Hosts and plays for the examples. The clock stands at 2025-01-14T12:00:00Z, which is
  1736856000000; the strings are read as the standard library reads them.
\<close>

definition example_strptime :: "string \<Rightarrow> pyerr + int" where
  "example_strptime s =
     (if s = ''2025-01-10T09:00:00.000Z'' then Inr 1736499600000
      else if s = ''2024-06-01T08:00:00.000Z'' then Inr 1717228800000
      else if s = ''2024-01-15T12:30:00.000Z'' then Inr 1705321800000
      else if s = ''2024-01-15T12:00:00.000Z'' then Inr 1705320000000
      else if s = ''2023-12-11T12:00:00.000Z'' then Inr 1702296000000
      else Inl (ValueError ''time data does not match format''))"

definition example_utc_host :: host where
  "example_utc_host = \<lparr>strptime_ms = example_strptime, utcoffset_ms = (\<lambda>t. 0)\<rparr>"

definition example_amsterdam_host :: host where
  "example_amsterdam_host = \<lparr>strptime_ms = example_strptime, utcoffset_ms = (\<lambda>t. 3600000)\<rparr>"

definition example_played_sp :: "recent_item list \<Rightarrow> spotify" where
  "example_played_sp items = example_sp\<lparr>current_user_recently_played := Inr items\<rparr>"

definition example_plays :: "recent_item list" where
  "example_plays =
     [\<lparr>item_track_id = ''a'', played_at = ''2025-01-10T09:00:00.000Z''\<rparr>,
      \<lparr>item_track_id = ''a'', played_at = ''2023-12-11T12:00:00.000Z''\<rparr>,
      \<lparr>item_track_id = ''c'', played_at = ''2025-01-10T09:00:00.000Z''\<rparr>,
      \<lparr>item_track_id = ''a'', played_at = ''2024-06-01T08:00:00.000Z''\<rparr>]"

section \<open>Track objects with missing keys\<close>

text \<open>
  \<open>raw_track\<close> is a track object as the catalog documents it: every key that the program
  reads is there, except perhaps the release date. The normalisers do not check this.
  \<open>track_object\<close> is a track object any of whose keys may be missing. A key that holds an
  object or a list may be missing (\<open>Missing\<close>), hold \<^verbatim>\<open>None\<close> (\<open>IsNone\<close>) or hold a
  value; a key that holds a string (\<^verbatim>\<open>id\<close>, \<^verbatim>\<open>name\<close>, the \<^verbatim>\<open>name\<close> of an artist,
  the \<^verbatim>\<open>url\<close> of an image) is missing (\<open>None\<close>) or holds a string.
\<close>

datatype 'a member = Missing | IsNone | Has 'a

record album_object =
  album_images :: "string option list member"
  album_release_date :: field

record track_object =
  id_key :: "string option"
  name_key :: "string option"
  artists_key :: "string option list member"
  album_key :: "album_object member"

text \<open>\<^verbatim>\<open>track['artists'][0]['name']\<close>.\<close>

definition first_artist_name :: "track_object \<Rightarrow> pyerr + string" where
  "first_artist_name t =
     (case artists_key t of
        Missing \<Rightarrow> Inl (KeyError ''artists'')
      | IsNone \<Rightarrow> Inl TypeError
      | Has [] \<Rightarrow> Inl IndexError
      | Has (None # _) \<Rightarrow> Inl (KeyError ''name'')
      | Has (Some a # _) \<Rightarrow> Inr a)"

text \<open>
  \<^verbatim>\<open>track['album']['images'][0]['url'] if track['album']['images'] else None\<close>: the
  condition is read first; a list that is \<^verbatim>\<open>None\<close> or empty is false.
\<close>

definition first_image_url :: "track_object \<Rightarrow> pyerr + string option" where
  "first_image_url t =
     (case album_key t of
        Missing \<Rightarrow> Inl (KeyError ''album'')
      | IsNone \<Rightarrow> Inl TypeError
      | Has al \<Rightarrow>
          (case album_images al of
             Missing \<Rightarrow> Inl (KeyError ''images'')
           | IsNone \<Rightarrow> Inr None
           | Has [] \<Rightarrow> Inr None
           | Has (None # _) \<Rightarrow> Inl (KeyError ''url'')
           | Has (Some u # _) \<Rightarrow> Inr (Some u)))"

text \<open>\<^verbatim>\<open>track['album']['release_date'][:4]\<close>.\<close>

definition first_four_of_date :: "track_object \<Rightarrow> pyerr + string" where
  "first_four_of_date t =
     (case album_key t of
        Missing \<Rightarrow> Inl (KeyError ''album'')
      | IsNone \<Rightarrow> Inl TypeError
      | Has al \<Rightarrow>
          (case album_release_date al of
             Absent \<Rightarrow> Inl (KeyError ''release_date'')
           | Null \<Rightarrow> Inl TypeError
           | Str d \<Rightarrow> Inr (take 4 d)))"

text \<open>
  The dictionary display of \<^verbatim>\<open>search_spotify\<close> (lines 71 to 78) on a track object. Its
  entries are evaluated in the order written: the id, the name, the artist (the f-string
  reads the same two again), the image and then the release date; the first read that
  fails raises.
\<close>

definition search_dict :: "track_object \<Rightarrow> pyerr + song" where
  "search_dict t =
     (case id_key t of
        None \<Rightarrow> Inl (KeyError ''id'')
      | Some i \<Rightarrow>
     (case name_key t of
        None \<Rightarrow> Inl (KeyError ''name'')
      | Some n \<Rightarrow>
     (case first_artist_name t of
        Inl e \<Rightarrow> Inl e
      | Inr a \<Rightarrow>
     (case first_image_url t of
        Inl e \<Rightarrow> Inl e
      | Inr u \<Rightarrow>
     (case first_four_of_date t of
        Inl e \<Rightarrow> Inl e
      | Inr y \<Rightarrow>
          Inr \<lparr>song_id = i, name = n, artist = a, full_name = n @ '' - '' @ a,
               image_url = u, release_year = Some y, play_count = None, rank = None\<rparr>)))))"

text \<open>
  The body of the loop of \<^verbatim>\<open>get_spotify_suggestions\<close> (lines 46 to 57) for a track
  object that has not been seen: the id is read for the test of line 46, then the image
  and the release date, and the name and the artist inside the dictionary display.
\<close>

definition suggestion_dict :: "(string \<rightharpoonup> int) \<Rightarrow> track_object \<Rightarrow> pyerr + song" where
  "suggestion_dict play_counts t =
     (case id_key t of
        None \<Rightarrow> Inl (KeyError ''id'')
      | Some i \<Rightarrow>
     (case first_image_url t of
        Inl e \<Rightarrow> Inl e
      | Inr u \<Rightarrow>
     (case first_four_of_date t of
        Inl e \<Rightarrow> Inl e
      | Inr y \<Rightarrow>
     (case name_key t of
        None \<Rightarrow> Inl (KeyError ''name'')
      | Some n \<Rightarrow>
     (case first_artist_name t of
        Inl e \<Rightarrow> Inl e
      | Inr a \<Rightarrow>
          Inr \<lparr>song_id = i, name = n, artist = a, full_name = n @ '' - '' @ a,
               image_url = u, release_year = Some y,
               play_count = Some (case play_counts i of None \<Rightarrow> 0 | Some c \<Rightarrow> c),
               rank = None\<rparr>)))))"

text \<open>A documented track object, with every key.\<close>

definition as_object :: "raw_track \<Rightarrow> track_object" where
  "as_object t =
     \<lparr>id_key = Some (track_id t), name_key = Some (track_name t),
      artists_key = Has (map Some (artists t)),
      album_key = Has \<lparr>album_images = Has (map Some (images t)),
                        album_release_date = release_date t\<rparr>\<rparr>"

text \<open>
  The keys other than the release date can be read: the id and the name are there, there
  is a first artist and it has a name, and there is an album whose list of images is
  \<^verbatim>\<open>None\<close>, empty, or starts with an image that has a url.
\<close>

definition other_keys_readable :: "track_object \<Rightarrow> bool" where
  "other_keys_readable t =
     (id_key t \<noteq> None \<and> name_key t \<noteq> None
      \<and> (case artists_key t of Has (Some a # _) \<Rightarrow> True | _ \<Rightarrow> False)
      \<and> (case album_key t of
            Has al \<Rightarrow>
              (case album_images al of
                 IsNone \<Rightarrow> True
               | Has [] \<Rightarrow> True
               | Has (Some u # _) \<Rightarrow> True
               | _ \<Rightarrow> False)
          | _ \<Rightarrow> False))"

text \<open>The release date of a track object, when it has an album.\<close>

definition release_date_key :: "track_object \<Rightarrow> field" where
  "release_date_key t =
     (case album_key t of Has al \<Rightarrow> album_release_date al | _ \<Rightarrow> Absent)"

section \<open>Persistence\<close>

text \<open>
  The file \<^verbatim>\<open>rankings.json\<close> is \<open>None\<close> when it does not exist and otherwise holds
  the JSON array as parsed, one dictionary per entry.

  \<^verbatim>\<open>save_rankings\<close> overwrites the file with the list it is given; its value here is
  the file afterwards.
\<close>

definition save_rankings :: "song list \<Rightarrow> song list option" where
  "save_rankings rankings = Some rankings"

text \<open>
  The body of the loop of \<^verbatim>\<open>load_rankings\<close> for one entry. The client is read from
  \<^verbatim>\<open>st.session_state.spotify\<close>, which may not be set yet (\<open>None\<close>): the attribute read
  then raises inside the \<^verbatim>\<open>try\<close>. The bare \<^verbatim>\<open>except\<close> catches that, an exception of
  the lookup, and a release date that is missing or \<^verbatim>\<open>null\<close>, and stores \<^verbatim>\<open>'N/A'\<close>.
\<close>

definition backfill :: "spotify option \<Rightarrow> song \<Rightarrow> song" where
  "backfill session_spotify s =
     (if release_year s = None
      then s\<lparr>release_year :=
               Some (case session_spotify of
                       None \<Rightarrow> ''N/A''
                     | Some sp \<Rightarrow>
                         (case track sp (song_id s) of
                            Inl e \<Rightarrow> ''N/A''
                          | Inr t \<Rightarrow>
                              (case release_year_of t of
                                 Inl e \<Rightarrow> ''N/A''
                               | Inr y \<Rightarrow> y)))\<rparr>
      else s)"

definition load_rankings :: "spotify option \<Rightarrow> song list option \<Rightarrow> song list" where
  "load_rankings session_spotify file =
     (case file of
        None \<Rightarrow> []
      | Some rankings \<Rightarrow> map (backfill session_spotify) rankings)"

text \<open>A persisted entry without the key \<^verbatim>\<open>release_year\<close>, and a catalog that knows it.\<close>

definition example_old_entry :: song where
  "example_old_entry = (example_entry ''a'' 1)\<lparr>release_year := None\<rparr>"

definition example_lookup_sp :: spotify where
  "example_lookup_sp = example_sp\<lparr>track := (\<lambda>i. Inr (example_raw i))\<rparr>"

section \<open>The session and the handlers of \<^verbatim>\<open>main\<close>\<close>

text \<open>
  The dictionaries of a session are objects: the list \<^verbatim>\<open>st.session_state.suggestions\<close>
  and the list \<^verbatim>\<open>st.session_state.ranked_songs\<close> may hold the same dictionary, and
  \<^verbatim>\<open>song['rank'] = ...\<close> changes it for both. The session therefore keeps the
  dictionaries in \<open>objects\<close>, addressed by their position, and the two lists hold
  addresses. A new dictionary is appended to \<open>objects\<close>. \<open>rankings_json\<close> is the file.
\<close>

record session =
  objects :: "song list"
  ranked_songs :: "nat list"
  suggestions :: "nat list"
  rankings_json :: "song list option"

text \<open>The dictionaries that the ranked list holds, in its order.\<close>

definition store_contents :: "session \<Rightarrow> song list" where
  "store_contents s = map (\<lambda>a. objects s ! a) (ranked_songs s)"

text \<open>
  \<^verbatim>\<open>sorted(ranked_songs, key=lambda x: x['rank'])\<close>: a stable sort, which raises when an
  entry has no rank.
\<close>

definition sorted_by_rank :: "song list \<Rightarrow> nat list \<Rightarrow> pyerr + nat list" where
  "sorted_by_rank objs addrs =
     (if list_all (\<lambda>a. rank (objs ! a) \<noteq> None) addrs
      then Inr (sort_key (\<lambda>a. the (rank (objs ! a))) addrs)
      else Inl (KeyError ''rank''))"

text \<open>
  The start of a session in \<^verbatim>\<open>main\<close>: \<^verbatim>\<open>ranked_songs\<close> is loaded before the client
  is stored in the session state, so \<^verbatim>\<open>load_rankings\<close> finds no client; there are no
  suggestions yet.
\<close>

definition start_session :: "song list option \<Rightarrow> session" where
  "start_session file =
     \<lparr>objects = load_rankings None file,
      ranked_songs = [0..<length (load_rankings None file)],
      suggestions = [],
      rankings_json = file\<rparr>"

text \<open>
  The rank field of row \<open>idx\<close> of the ranking, changed to \<open>new_rank\<close>: the entry is
  changed in place, the list is sorted again and saved.
\<close>

definition edit_rank :: "nat \<Rightarrow> int \<Rightarrow> session \<Rightarrow> pyerr + session" where
  "edit_rank idx new_rank s =
     (if idx < length (ranked_songs s)
      then (let a = ranked_songs s ! idx in
            case rank (objects s ! a) of
              None \<Rightarrow> Inl (KeyError ''rank'')
            | Some r \<Rightarrow>
                if new_rank \<noteq> r
                then (let objs = (objects s)[a := (objects s ! a)\<lparr>rank := Some new_rank\<rparr>] in
                      case sorted_by_rank objs (ranked_songs s) of
                        Inl e \<Rightarrow> Inl e
                      | Inr addrs \<Rightarrow>
                          Inr (s\<lparr>objects := objs, ranked_songs := addrs,
                                 rankings_json := save_rankings (map (\<lambda>a. objs ! a) addrs)\<rparr>))
                else Inr s)
      else Inr s)"

text \<open>
  \<^verbatim>\<open>list.remove(song)\<close> removes the first element that is, or is equal to, \<open>song\<close> and
  raises when there is none.
\<close>

fun remove_first :: "song list \<Rightarrow> song \<Rightarrow> nat list \<Rightarrow> pyerr + nat list" where
  "remove_first objs song [] = Inl (ValueError ''list.remove(x): x not in list'')"
| "remove_first objs song (b # bs) =
     (if objs ! b = song then Inr bs
      else (case remove_first objs song bs of Inl e \<Rightarrow> Inl e | Inr rest \<Rightarrow> Inr (b # rest)))"

text \<open>The button \<^verbatim>\<open>Remove\<close> of row \<open>idx\<close>.\<close>

definition remove_song :: "nat \<Rightarrow> session \<Rightarrow> pyerr + session" where
  "remove_song idx s =
     (if idx < length (ranked_songs s)
      then (case remove_first (objects s) (objects s ! (ranked_songs s ! idx)) (ranked_songs s) of
              Inl e \<Rightarrow> Inl e
            | Inr addrs \<Rightarrow>
                Inr (s\<lparr>ranked_songs := addrs,
                       rankings_json := save_rankings (map (\<lambda>a. objects s ! a) addrs)\<rparr>))
      else Inr s)"

text \<open>
  The button \<^verbatim>\<open>Add\<close> of a search result. \<open>song\<close> is the dictionary that
  \<^verbatim>\<open>search_spotify\<close> built in this run of the script, a new object; \<open>rank\<close> is the value
  of the number field. The membership test \<^verbatim>\<open>song not in ranked_songs\<close> compares
  dictionaries, and it runs before \<^verbatim>\<open>song['rank'] = rank\<close>.
\<close>

definition add_search :: "song \<Rightarrow> int \<Rightarrow> session \<Rightarrow> pyerr + session" where
  "add_search song rank' s =
     (if song \<notin> set (store_contents s)
      then (let a = length (objects s);
                objs = objects s @ [song\<lparr>rank := Some rank'\<rparr>] in
            case sorted_by_rank objs (ranked_songs s @ [a]) of
              Inl e \<Rightarrow> Inl e
            | Inr addrs \<Rightarrow>
                Inr (s\<lparr>objects := objs, ranked_songs := addrs,
                       rankings_json := save_rankings (map (\<lambda>a. objs ! a) addrs)\<rparr>))
      else Inr s)"

text \<open>
  The button \<^verbatim>\<open>Add\<close> of suggestion \<open>idx\<close>. The dictionary is the one that the list of
  suggestions holds: the assignment of the rank changes it there as well.
\<close>

definition add_suggestion :: "nat \<Rightarrow> int \<Rightarrow> session \<Rightarrow> pyerr + session" where
  "add_suggestion idx rank' s =
     (if idx < length (suggestions s)
      then (let a = suggestions s ! idx; song = objects s ! a in
            if song \<notin> set (store_contents s)
            then (let objs = (objects s)[a := song\<lparr>rank := Some rank'\<rparr>] in
                  case sorted_by_rank objs (ranked_songs s @ [a]) of
                    Inl e \<Rightarrow> Inl e
                  | Inr addrs \<Rightarrow>
                      Inr (s\<lparr>objects := objs, ranked_songs := addrs,
                             rankings_json := save_rankings (map (\<lambda>a. objs ! a) addrs)\<rparr>))
            else Inr s)
      else Inr s)"

text \<open>
  The button \<^verbatim>\<open>Load Suggestions\<close>: a non-empty answer replaces the suggestions of the
  session by new dictionaries.
\<close>

definition load_suggestions ::
  "spotify \<Rightarrow> (string \<Rightarrow> pyerr + int) \<Rightarrow> int \<Rightarrow> session \<Rightarrow> session" where
  "load_suggestions sp timestamp_ms now s =
     (let suggs = fst (get_spotify_suggestions sp timestamp_ms now) in
      if suggs \<noteq> []
      then s\<lparr>objects := objects s @ suggs,
             suggestions := [length (objects s)..<length (objects s) + length suggs]\<rparr>
      else s)"

text \<open>
  The sessions that the program can be in: it starts without a file, every handler that
  ends without an exception leads to the next session, and a new session starts from the
  file that the last one left.
\<close>

inductive reachable :: "session \<Rightarrow> bool" where
  first_start: "reachable (start_session None)"
| restart: "reachable s \<Longrightarrow> reachable (start_session (rankings_json s))"
| edited: "reachable s \<Longrightarrow> edit_rank idx new_rank s = Inr s' \<Longrightarrow> reachable s'"
| removed: "reachable s \<Longrightarrow> remove_song idx s = Inr s' \<Longrightarrow> reachable s'"
| added_search: "reachable s \<Longrightarrow> add_search song rank' s = Inr s' \<Longrightarrow> reachable s'"
| added_suggestion: "reachable s \<Longrightarrow> add_suggestion idx rank' s = Inr s' \<Longrightarrow> reachable s'"
| loaded_suggestions: "reachable s \<Longrightarrow> reachable (load_suggestions sp timestamp_ms now s)"

text \<open>
  A list of entries is sorted ascending by rank: every entry has a rank, and the ranks
  do not decrease along the list.
\<close>

definition store_sorted :: "song list \<Rightarrow> bool" where
  "store_sorted songs = (case ranks_of songs of Inl e \<Rightarrow> False | Inr rs \<Rightarrow> sorted rs)"

text \<open>
  What holds of every session: the addresses in the two lists are addresses of objects,
  and the ranked list and the file, when there is one, are sorted by rank.
\<close>

definition session_ok :: "session \<Rightarrow> bool" where
  "session_ok s =
     (list_all (\<lambda>a. a < length (objects s)) (ranked_songs s)
      \<and> list_all (\<lambda>a. a < length (objects s)) (suggestions s)
      \<and> store_sorted (store_contents s)
      \<and> (case rankings_json s of None \<Rightarrow> True | Some file \<Rightarrow> store_sorted file))"

text \<open>
  \<open>added s s' entry\<close>: the ranked list of \<open>s'\<close> is that of \<open>s\<close> with \<open>entry\<close> appended
  and then sorted by rank, it is one longer, it is sorted, and the file holds it.
\<close>

definition added :: "session \<Rightarrow> session \<Rightarrow> song \<Rightarrow> bool" where
  "added s s' entry =
     (store_contents s' = sort_key (\<lambda>x. the (rank x)) (store_contents s @ [entry])
      \<and> length (store_contents s') = length (store_contents s) + 1
      \<and> store_sorted (store_contents s')
      \<and> rankings_json s' = Some (store_contents s'))"

text \<open>Sessions for the examples.\<close>

definition example_session :: session where
  "example_session =
     \<lparr>objects = [example_entry ''b'' 2, example_entry ''a'' 3],
      ranked_songs = [0, 1],
      suggestions = [],
      rankings_json = Some [example_entry ''b'' 2, example_entry ''a'' 3]\<rparr>"

definition example_ranked_session :: session where
  "example_ranked_session =
     \<lparr>objects = [example_entry ''a'' 5],
      ranked_songs = [0],
      suggestions = [],
      rankings_json = Some [example_entry ''a'' 5]\<rparr>"

definition example_suggested_session :: session where
  "example_suggested_session =
     \<lparr>objects = [(example_track ''a'')\<lparr>play_count := Some 2, rank := Some 1\<rparr>,
                 (example_track ''b'')\<lparr>play_count := Some 0\<rparr>],
      ranked_songs = [0],
      suggestions = [0, 1],
      rankings_json = Some [(example_track ''a'')\<lparr>play_count := Some 2, rank := Some 1\<rparr>]\<rparr>"

section \<open>Properties of the rank allocator\<close>

lemma ranks_of_all_ranked:
  "all_ranked ss \<Longrightarrow> ranks_of ss = Inr (map (\<lambda>s. the (rank s)) ss)"
  by (induction ss) (auto simp: all_ranked_def)

lemma set_ranks_all_ranked:
  "all_ranked ss \<Longrightarrow> set (map (\<lambda>s. the (rank s)) ss) = store_ranks ss"
  by (induction ss) (auto simp: all_ranked_def store_ranks_def list_all_iff)

lemma scan_ranks_full:
  "\<forall>k. r \<le> k \<and> k \<le> 2000 \<longrightarrow> k \<in> R \<Longrightarrow> scan_ranks R r = 2000"
proof (induction R r rule: scan_ranks.induct)
  case (1 R r)
  show ?case
  proof (cases "r < 2001")
    case False
    then show ?thesis by (simp add: scan_ranks.simps)
  next
    case True
    with "1.prems" have inR: "r \<in> R" by simp
    have "scan_ranks R (r + 1) = 2000"
      using "1.IH" [OF True] inR "1.prems" by simp
    then show ?thesis
      using True inR by (subst scan_ranks.simps) simp
  qed
qed

lemma scan_ranks_free:
  "\<exists>k. r \<le> k \<and> k \<le> 2000 \<and> k \<notin> R \<Longrightarrow>
   r \<le> scan_ranks R r \<and> scan_ranks R r \<le> 2000 \<and> scan_ranks R r \<notin> R
   \<and> (\<forall>k. r \<le> k \<and> k < scan_ranks R r \<longrightarrow> k \<in> R)"
proof (induction R r rule: scan_ranks.induct)
  case (1 R r)
  from "1.prems" have lt: "r < 2001" by auto
  show ?case
  proof (cases "r \<in> R")
    case False
    with lt have "scan_ranks R r = r" by (simp add: scan_ranks.simps)
    with False lt show ?thesis by auto
  next
    case True
    from "1.prems" True have "\<exists>k. r + 1 \<le> k \<and> k \<le> 2000 \<and> k \<notin> R"
      by (metis add1_zle_eq order_le_less)
    from "1.IH" [OF lt _ this] True
    have ih: "r + 1 \<le> scan_ranks R (r + 1) \<and> scan_ranks R (r + 1) \<le> 2000
              \<and> scan_ranks R (r + 1) \<notin> R
              \<and> (\<forall>k. r + 1 \<le> k \<and> k < scan_ranks R (r + 1) \<longrightarrow> k \<in> R)"
      by simp
    have eq: "scan_ranks R r = scan_ranks R (r + 1)"
      using lt True by (subst scan_ranks.simps) simp
    have "\<forall>k. r \<le> k \<and> k < scan_ranks R (r + 1) \<longrightarrow> k \<in> R"
    proof (intro allI impI)
      fix k assume k: "r \<le> k \<and> k < scan_ranks R (r + 1)"
      show "k \<in> R"
      proof (cases "k = r")
        case True with \<open>r \<in> R\<close> show ?thesis by simp
      next
        case False
        with k have "r + 1 \<le> k" by simp
        with k ih show ?thesis by blast
      qed
    qed
    with ih eq show ?thesis by simp
  qed
qed

text \<open>
  Claim C1. On every store whose entries all carry a rank, \<^verbatim>\<open>get_next_available_rank\<close>
  returns a rank \<open>r\<close> between 1 and 2000. When some rank of 1..2000 is free, \<open>r\<close> is free
  and every rank of 1..2000 below \<open>r\<close> is taken, so \<open>r\<close> is the smallest free rank; when
  all 2000 ranks are taken, \<open>r\<close> is 2000. The function is a function of the store alone
  and returns nothing but the rank: the source builds a fresh set of ranks and writes
  neither to the list nor to its entries.
\<close>

theorem get_next_available_rank_lowest_free:
  assumes "all_ranked store"
  shows "\<exists>r. get_next_available_rank store = Inr r \<and> 1 \<le> r \<and> r \<le> 2000
             \<and> ((\<exists>k. 1 \<le> k \<and> k \<le> 2000 \<and> k \<notin> store_ranks store) \<longrightarrow>
                  r \<notin> store_ranks store
                  \<and> (\<forall>k. 1 \<le> k \<and> k < r \<longrightarrow> k \<in> store_ranks store))
             \<and> ((\<forall>k. 1 \<le> k \<and> k \<le> 2000 \<longrightarrow> k \<in> store_ranks store) \<longrightarrow> r = 2000)"
proof (cases "store = []")
  case True
  then show ?thesis
    by (auto simp: get_next_available_rank_def store_ranks_def)
next
  case False
  let ?R = "store_ranks store"
  have res: "get_next_available_rank store = Inr (scan_ranks ?R 1)"
    using False assms
    by (simp add: get_next_available_rank_def ranks_of_all_ranked
        set_ranks_all_ranked [symmetric])
  show ?thesis
  proof (cases "\<exists>k. 1 \<le> k \<and> k \<le> 2000 \<and> k \<notin> ?R")
    case True
    from scan_ranks_free [OF True] res True show ?thesis by auto
  next
    case full: False
    then have "\<forall>k. 1 \<le> k \<and> k \<le> 2000 \<longrightarrow> k \<in> ?R" by blast
    from scan_ranks_full [OF this] res full show ?thesis by auto
  qed
qed

theorem get_next_available_rank_lowest_free_witness:
  "all_ranked [example_entry ''a'' 1, example_entry ''b'' 2, example_entry ''c'' 4]
   \<and> get_next_available_rank
       [example_entry ''a'' 1, example_entry ''b'' 2, example_entry ''c'' 4] = Inr 3"
proof -
  let ?st = "[example_entry ''a'' 1, example_entry ''b'' 2, example_entry ''c'' 4]"
  have a: "all_ranked ?st"
    by (simp add: all_ranked_def example_entry_def)
  have R: "store_ranks ?st = {1, 2, 4}"
    by (auto simp: store_ranks_def example_entry_def)
  from get_next_available_rank_lowest_free [OF a] obtain r where
    r: "get_next_available_rank ?st = Inr r" "1 \<le> r" "r \<le> 2000"
    and free: "(\<exists>k. 1 \<le> k \<and> k \<le> 2000 \<and> k \<notin> store_ranks ?st) \<longrightarrow>
               r \<notin> store_ranks ?st \<and> (\<forall>k. 1 \<le> k \<and> k < r \<longrightarrow> k \<in> store_ranks ?st)"
    by blast
  have "\<exists>k::int. 1 \<le> k \<and> k \<le> 2000 \<and> k \<notin> {1, 2, 4}"
    by (rule exI [of _ 3]) simp
  with free R have notin: "r \<notin> {1, 2, 4}" and below: "\<forall>k. 1 \<le> k \<and> k < r \<longrightarrow> k \<in> {1, 2, 4}"
    by auto
  have "r = 3"
  proof (rule ccontr)
    assume ne: "r \<noteq> 3"
    show False
    proof (cases "r < 3")
      case True
      with r notin show False by auto
    next
      case False
      with ne have "3 < r" by simp
      with below have "(3::int) \<in> {1, 2, 4}" by (elim allE [of _ 3]) simp
      then show False by simp
    qed
  qed
  with r a show ?thesis by simp
qed

section \<open>Properties of the suggestions\<close>

lemma set_stable_dedup: "set (stable_dedup xs) = set xs"
  by (induction xs rule: stable_dedup.induct) auto


lemma stable_dedup_remdups: "stable_dedup xs = rev (remdups (rev xs))"
proof (induction xs rule: stable_dedup.induct)
  case 1
  show ?case by simp
next
  case (2 x xs)
  have app: "remdups (ys @ [x]) = filter (\<lambda>y. y \<noteq> x) (remdups ys) @ [x]" for ys
    by (induction ys) auto
  show ?case
    using 2 by (simp add: app remdups_filter rev_filter)
qed

lemma suggestion_record_fields:
  "suggestion_record pc t = Inr s \<Longrightarrow>
   song_id s = track_id t
   \<and> play_count s = Some (case pc (track_id t) of None \<Rightarrow> 0 | Some c \<Rightarrow> c)"
  by (auto simp: suggestion_record_def split: sum.splits list.splits)

lemma first_record_iff:
  "first_record pc ts s i
   \<longleftrightarrow> (\<exists>t. find (\<lambda>t. track_id t = i) ts = Some t \<and> suggestion_record pc t = Inr s)"
  by (auto simp: first_record_def split: option.splits)

lemma collect_suggestions_shape:
  "collect_suggestions pc seen acc ts = Inr out \<Longrightarrow>
   \<exists>new. out = acc @ new
     \<and> list_all2 (first_record pc ts) new
          (stable_dedup (filter (\<lambda>i. i \<notin> seen) (map track_id ts)))"
proof (induction ts arbitrary: seen acc out)
  case Nil
  then show ?case by simp
next
  case (Cons t ts)
  show ?case
  proof (cases "track_id t \<in> seen")
    case True
    with Cons.prems have "collect_suggestions pc seen acc ts = Inr out" by simp
    from Cons.IH [OF this] obtain new where
      new: "out = acc @ new"
        "list_all2 (first_record pc ts) new
           (stable_dedup (filter (\<lambda>i. i \<notin> seen) (map track_id ts)))"
      by blast
    have "list_all2 (first_record pc (t # ts)) new
            (stable_dedup (filter (\<lambda>i. i \<notin> seen) (map track_id ts)))"
      using new(2)
    proof (rule list.rel_mono_strong)
      fix s i
      assume "i \<in> set (stable_dedup (filter (\<lambda>i. i \<notin> seen) (map track_id ts)))"
        and r: "first_record pc ts s i"
      then have "i \<noteq> track_id t" using True by (auto simp: set_stable_dedup)
      with r show "first_record pc (t # ts) s i"
        by (auto simp: first_record_iff)
    qed
    with new(1) True show ?thesis by auto
  next
    case False
    with Cons.prems obtain s where
      s: "suggestion_record pc t = Inr s"
      and rest: "collect_suggestions pc (insert (track_id t) seen) (acc @ [s]) ts = Inr out"
      by (auto split: sum.splits)
    from Cons.IH [OF rest] obtain new where
      new: "out = (acc @ [s]) @ new"
        "list_all2 (first_record pc ts) new
           (stable_dedup (filter (\<lambda>i. i \<notin> insert (track_id t) seen) (map track_id ts)))"
      by blast
    let ?ids = "stable_dedup (filter (\<lambda>i. i \<notin> insert (track_id t) seen) (map track_id ts))"
    have tail: "list_all2 (first_record pc (t # ts)) new ?ids"
      using new(2)
    proof (rule list.rel_mono_strong)
      fix s' i
      assume "i \<in> set ?ids" and r: "first_record pc ts s' i"
      then have "i \<noteq> track_id t" by (auto simp: set_stable_dedup)
      with r show "first_record pc (t # ts) s' i"
        by (auto simp: first_record_iff)
    qed
    have hd: "first_record pc (t # ts) s (track_id t)"
      using s by (simp add: first_record_iff)
    have ids: "stable_dedup (filter (\<lambda>i. i \<notin> seen) (map track_id (t # ts)))
               = track_id t # ?ids"
      using False by (simp add: conj_commute)
    show ?thesis
      using new(1) hd tail ids by (intro exI [of _ "s # new"]) simp
  qed
qed




lemma suggestions_try_cases:
  assumes "current_user_top_tracks sp = Inr top_tracks"
  shows "(\<exists>e. snd (suggestions_try sp ts now) = Inl e
            \<and> fst (get_spotify_suggestions sp ts now) = [])
       \<or> (\<exists>recent pc out. current_user_recently_played sp = Inr recent
            \<and> count_plays ts now Map.empty recent = Inr pc
            \<and> collect_suggestions pc {} [] top_tracks = Inr out
            \<and> snd (suggestions_try sp ts now) = Inr out
            \<and> fst (get_spotify_suggestions sp ts now) = out)"
  using assms
  by (auto simp: suggestions_try_def get_spotify_suggestions_def split: sum.splits)


lemma count_plays_total:
  "count_plays ts now pc0 items = Inr pc \<Longrightarrow>
   (case pc i of None \<Rightarrow> 0 | Some c \<Rightarrow> c)
     = (case pc0 i of None \<Rightarrow> 0 | Some c \<Rightarrow> c)
       + int (length (filter (\<lambda>item. item_track_id item = i
                                \<and> (case ts (played_at item) of
                                      Inl e \<Rightarrow> False
                                    | Inr played \<Rightarrow> year_ago now < played))
                       items))"
proof (induction items arbitrary: pc0)
  case Nil
  then show ?case by simp
next
  case (Cons item items)
  from Cons.prems obtain played where
    p: "ts (played_at item) = Inr played"
    and rest: "count_plays ts now
                 (if played > year_ago now then count_play pc0 (item_track_id item) else pc0)
                 items = Inr pc"
    by (auto split: sum.splits)
  show ?case
    using Cons.IH [OF rest] p
    by (auto simp: count_play_def split: option.splits)
qed

lemma suggestions_play_count_converted:
  assumes "current_user_recently_played sp = Inr recent_tracks"
    and s: "s \<in> set (fst (get_spotify_suggestions sp ts now))"
  shows "play_count s
         = Some (int (length (filter (\<lambda>item. item_track_id item = song_id s
                                      \<and> (case ts (played_at item) of
                                            Inl e \<Rightarrow> False
                                          | Inr played \<Rightarrow> year_ago now < played))
                               recent_tracks)))"
proof -
  from s obtain top_tracks where top: "current_user_top_tracks sp = Inr top_tracks"
    by (cases "current_user_top_tracks sp")
       (auto simp: suggestions_try_def get_spotify_suggestions_def)
  from suggestions_try_cases [OF top, of ts now] s assms(1) obtain pc out where
    cp: "count_plays ts now Map.empty recent_tracks = Inr pc"
    and c: "collect_suggestions pc {} [] top_tracks = Inr out"
    and o: "fst (get_spotify_suggestions sp ts now) = out"
    by auto
  from collect_suggestions_shape [OF c]
  have "list_all2 (first_record pc top_tracks) out (stable_dedup (map track_id top_tracks))"
    by simp
  with s o obtain i where "first_record pc top_tracks s i"
    by (auto simp: list_all2_conv_all_nth in_set_conv_nth)
  then obtain t where t: "suggestion_record pc t = Inr s"
    by (auto simp: first_record_iff)
  from suggestion_record_fields [OF t] count_plays_total [OF cp, of "song_id s"]
  show ?thesis by simp
qed

text \<open>
  Claim C4, as stated, fails in two ways. The source counts an item when
  \<^verbatim>\<open>played_at > year_ago\<close>, so on a host that runs on UTC a play that is exactly 365
  days old, which lies within 365 days of the current time, is not counted. And the
  conversion of line 38 reads the UTC string as local time, so in Amsterdam a play that
  is 364 days, 23 hours and 30 minutes old is taken for one that is 30 minutes older than
  365 days and is not counted either.
\<close>

theorem suggestions_play_count_counterexample:
  "map play_count
     (fst (get_spotify_suggestions
             (example_played_sp
                [\<lparr>item_track_id = ''a'', played_at = ''2024-01-15T12:00:00.000Z''\<rparr>])
             (played_at_ms example_utc_host) 1736856000000))
     = [Some 0, Some 0]
   \<and> plays_within_year example_utc_host 1736856000000
         [\<lparr>item_track_id = ''a'', played_at = ''2024-01-15T12:00:00.000Z''\<rparr>] ''a'' = 1
   \<and> map play_count
         (fst (get_spotify_suggestions
                 (example_played_sp
                    [\<lparr>item_track_id = ''a'', played_at = ''2024-01-15T12:30:00.000Z''\<rparr>])
                 (played_at_ms example_amsterdam_host) 1736856000000))
       = [Some 0, Some 0]
   \<and> plays_within_year example_amsterdam_host 1736856000000
         [\<lparr>item_track_id = ''a'', played_at = ''2024-01-15T12:30:00.000Z''\<rparr>] ''a'' = 1"
  by (simp add: get_spotify_suggestions_def suggestions_try_def example_played_sp_def
      example_sp_def example_raw_def played_at_ms_def example_utc_host_def
      example_amsterdam_host_def example_strptime_def suggestion_record_def
      release_year_of_def image_url_of_def year_ago_def count_play_def plays_within_year_def)

text \<open>
  Claim C4, amended. On a host whose local time zone is UTC, for every record of the
  suggestions returned, \<^verbatim>\<open>play_count\<close> is the number of items of the recently-played
  list with that record's id whose \<^verbatim>\<open>played_at\<close> timestamp is later than the instant
  365 days (31536000000 milliseconds) before \<open>now\<close>. An item that is 365 days old or
  older adds nothing, and a track with no such item gets 0.
\<close>

theorem suggestions_play_count:
  assumes "\<forall>t. utcoffset_ms h t = 0"
    and "current_user_recently_played sp = Inr recent_tracks"
  shows "\<forall>s \<in> set (fst (get_spotify_suggestions sp (played_at_ms h) now)).
           play_count s = Some (plays_after_year_ago h now recent_tracks (song_id s))"
proof
  fix s assume s: "s \<in> set (fst (get_spotify_suggestions sp (played_at_ms h) now))"
  have "(case played_at_ms h p of Inl e \<Rightarrow> False | Inr played \<Rightarrow> year_ago now < played)
        = (case strptime_ms h p of Inl e \<Rightarrow> False
           | Inr played \<Rightarrow> now - 365 * 86400000 < played)" for p
    using assms(1) by (simp add: played_at_ms_def year_ago_def split: sum.splits)
  with suggestions_play_count_converted [OF assms(2) s]
  show "play_count s = Some (plays_after_year_ago h now recent_tracks (song_id s))"
    by (simp add: plays_after_year_ago_def)
qed




lemma example_run:
  "get_spotify_suggestions example_sp example_ms 35000000000
   = ([(example_track ''a'')\<lparr>play_count := Some 2\<rparr>, (example_track ''b'')\<lparr>play_count := Some 0\<rparr>],
      [''Fetching top tracks...'', ''Fetching recent tracks...''])"
  by (simp add: get_spotify_suggestions_def suggestions_try_def example_sp_def example_raw_def
      example_ms_def suggestion_record_def release_year_of_def image_url_of_def year_ago_def
      count_play_def example_track_def)


theorem suggestions_play_count_witness:
  "utcoffset_ms example_utc_host 1736499600000 = 0
   \<and> current_user_recently_played (example_played_sp example_plays) = Inr example_plays
   \<and> hd (fst (get_spotify_suggestions (example_played_sp example_plays)
                (played_at_ms example_utc_host) 1736856000000))
       = (example_track ''a'')\<lparr>play_count := Some 2\<rparr>
   \<and> plays_after_year_ago example_utc_host 1736856000000 example_plays ''a'' = 2"
proof -
  let ?sp = "example_played_sp example_plays"
  let ?a = "(example_track ''a'')\<lparr>play_count := Some 2\<rparr>"
  have utc: "\<forall>t. utcoffset_ms example_utc_host t = 0"
    by (simp add: example_utc_host_def)
  have h: "current_user_recently_played ?sp = Inr example_plays"
    by (simp add: example_played_sp_def)
  have run: "fst (get_spotify_suggestions ?sp (played_at_ms example_utc_host) 1736856000000)
             = [?a, (example_track ''b'')\<lparr>play_count := Some 0\<rparr>]"
    by (simp add: get_spotify_suggestions_def suggestions_try_def example_played_sp_def
        example_plays_def example_sp_def example_raw_def played_at_ms_def example_utc_host_def
        example_strptime_def suggestion_record_def release_year_of_def image_url_of_def
        year_ago_def count_play_def example_track_def)
  then have "?a \<in> set (fst (get_spotify_suggestions ?sp (played_at_ms example_utc_host)
                             1736856000000))"
    by simp
  with suggestions_play_count [OF utc h, of 1736856000000]
  have "play_count ?a
        = Some (plays_after_year_ago example_utc_host 1736856000000 example_plays (song_id ?a))"
    by blast
  then have "plays_after_year_ago example_utc_host 1736856000000 example_plays ''a'' = 2"
    by (simp add: example_track_def)
  with utc h run show ?thesis by simp
qed


section \<open>Properties of the normalisation and of the error handling\<close>

lemma search_dict_as_object: "search_dict (as_object t) = search_record t"
  by (cases "artists t"; cases "images t"; cases "release_date t")
     (simp_all add: search_dict_def search_record_def as_object_def first_artist_name_def
        first_image_url_def first_four_of_date_def release_year_of_def image_url_of_def)

lemma suggestion_dict_as_object: "suggestion_dict pc (as_object t) = suggestion_record pc t"
  by (cases "artists t"; cases "images t"; cases "release_date t")
     (simp_all add: suggestion_dict_def suggestion_record_def as_object_def
        first_artist_name_def first_image_url_def first_four_of_date_def release_year_of_def
        image_url_of_def)

lemma other_keys_readable_iff:
  "other_keys_readable t
   \<longleftrightarrow> id_key t \<noteq> None \<and> name_key t \<noteq> None
       \<and> \<not> isl (first_artist_name t) \<and> \<not> isl (first_image_url t)"
  by (auto simp: other_keys_readable_def first_artist_name_def first_image_url_def
      split: member.splits list.splits option.splits)

lemma first_four_of_date_Inr:
  "first_four_of_date t = Inr y \<longleftrightarrow> (\<exists>d. release_date_key t = Str d \<and> y = take 4 d)"
  by (auto simp: first_four_of_date_def release_date_key_def split: member.splits field.splits)

text \<open>
  The two normalisers return a record for exactly the track objects whose other keys can
  be read and whose release date is a string; on every other track object they raise.
\<close>

lemma search_dict_returns_iff:
  "(\<exists>s. search_dict t = Inr s)
   \<longleftrightarrow> other_keys_readable t \<and> (\<exists>d. release_date_key t = Str d)"
proof -
  have "(\<exists>s. search_dict t = Inr s)
        \<longleftrightarrow> id_key t \<noteq> None \<and> name_key t \<noteq> None \<and> \<not> isl (first_artist_name t)
            \<and> \<not> isl (first_image_url t) \<and> (\<exists>y. first_four_of_date t = Inr y)"
    by (auto simp: search_dict_def split: option.splits sum.splits)
  then show ?thesis
    by (auto simp: other_keys_readable_iff first_four_of_date_Inr)
qed

lemma suggestion_dict_returns_iff:
  "(\<exists>s. suggestion_dict pc t = Inr s)
   \<longleftrightarrow> other_keys_readable t \<and> (\<exists>d. release_date_key t = Str d)"
proof -
  have "(\<exists>s. suggestion_dict pc t = Inr s)
        \<longleftrightarrow> id_key t \<noteq> None \<and> name_key t \<noteq> None \<and> \<not> isl (first_artist_name t)
            \<and> \<not> isl (first_image_url t) \<and> (\<exists>y. first_four_of_date t = Inr y)"
    by (auto simp: suggestion_dict_def split: option.splits sum.splits)
  then show ?thesis
    by (auto simp: other_keys_readable_iff first_four_of_date_Inr)
qed

text \<open>
  Claim C5, as stated, fails: a release date that is a malformed string is not replaced
  by \<^verbatim>\<open>'N/A'\<close> but cut to its first four characters, in the search results and in the
  suggestions alike, and a missing release date raises \<^verbatim>\<open>KeyError\<close>.
\<close>

theorem normalizer_fallback_counterexample:
  "search_dict (as_object ((example_raw ''a'')\<lparr>release_date := Str ''19''\<rparr>))
     = Inr ((example_track ''a'')\<lparr>release_year := Some ''19''\<rparr>)
   \<and> suggestion_dict Map.empty (as_object ((example_raw ''a'')\<lparr>release_date := Str ''unknown''\<rparr>))
     = Inr ((example_track ''a'')\<lparr>release_year := Some ''unkn'', play_count := Some 0\<rparr>)
   \<and> search_dict (as_object ((example_raw ''a'')\<lparr>release_date := Absent\<rparr>))
     = Inl (KeyError ''release_date'')"
  by (simp add: search_dict_def suggestion_dict_def as_object_def first_artist_name_def
      first_image_url_def first_four_of_date_def example_raw_def example_track_def)

text \<open>
  Claim C5, amended. For every raw catalog item whose release date is a string, well
  formed or not, and whose other keys can be read (it has an id and a name, a first artist
  with a name, and an album whose list of images is \<^verbatim>\<open>None\<close>, empty or starts with an
  image that has a url), both normalisers return a record without raising, and its
  \<^verbatim>\<open>release_year\<close> is the first four characters of that string (the whole string when
  it is shorter). The normalisers are functions of the item (and of the play counts)
  alone.
\<close>

theorem normalizer_release_year:
  assumes "other_keys_readable t" and "release_date_key t = Str d"
  shows "\<exists>s s'. search_dict t = Inr s \<and> release_year s = Some (take 4 d)
              \<and> suggestion_dict play_counts t = Inr s' \<and> release_year s' = Some (take 4 d)"
proof -
  from assms(2) have y: "first_four_of_date t = Inr (take 4 d)"
    by (simp add: first_four_of_date_Inr)
  from assms(1) obtain i n a u where
    "id_key t = Some i" "name_key t = Some n"
    "first_artist_name t = Inr a" "first_image_url t = Inr u"
    by (auto simp: other_keys_readable_iff) (metis isl_def sum.exhaust_sel)
  with y show ?thesis
    by (simp add: search_dict_def suggestion_dict_def)
qed

theorem normalizer_release_year_witness:
  "other_keys_readable (as_object (example_raw ''a''))
   \<and> release_date_key (as_object (example_raw ''a'')) = Str ''1999-05-01''
   \<and> search_dict (as_object (example_raw ''a'')) = Inr (example_track ''a'')"
proof -
  let ?t = "as_object (example_raw ''a'')"
  have k: "other_keys_readable ?t"
    and d: "release_date_key ?t = Str ''1999-05-01''"
    by (simp_all add: other_keys_readable_def release_date_key_def as_object_def
        example_raw_def)
  from normalizer_release_year [OF k d, of Map.empty] obtain s where
    s: "search_dict ?t = Inr s" "release_year s = Some (take 4 ''1999-05-01'')"
    by blast
  have "search_dict ?t = Inr (example_track ''a'')"
    by (simp add: search_dict_def as_object_def first_artist_name_def first_image_url_def
        first_four_of_date_def example_raw_def example_track_def)
  with k d show ?thesis by simp
qed

text \<open>
  What the handlers of the other three calls do. An exception of the top-tracks call or
  of the recently-played call is caught inside \<^verbatim>\<open>get_spotify_suggestions\<close>, which
  returns the empty list and prints the error. An exception of the single-track lookup
  is caught inside \<^verbatim>\<open>load_rankings\<close>, which stores \<^verbatim>\<open>'N/A'\<close> in every entry that has
  no release year.
\<close>

lemma suggestion_errors_caught:
  "get_spotify_suggestions (sp\<lparr>current_user_top_tracks := Inl e\<rparr>) timestamp_ms now
     = ([], [''Fetching top tracks...'', ''Error getting suggestions: '' @ str_error e])"
  "get_spotify_suggestions
       (sp\<lparr>current_user_top_tracks := Inr top_tracks, current_user_recently_played := Inl e\<rparr>)
       timestamp_ms now
     = ([], [''Fetching top tracks...'', ''Fetching recent tracks...'',
             ''Error getting suggestions: '' @ str_error e])"
  by (simp_all add: get_spotify_suggestions_def suggestions_try_def)

lemma lookup_errors_caught:
  "load_rankings (Some (sp\<lparr>track := (\<lambda>i. Inl (e i))\<rparr>)) (Some entries)
     = map (\<lambda>s. if release_year s = None then s\<lparr>release_year := Some ''N/A''\<rparr> else s) entries"
  by (simp add: load_rankings_def backfill_def)

lemma search_error_propagates:
  "search_spotify (sp\<lparr>search := (\<lambda>q. Inl e)\<rparr>) (c # query) = Inl e"
  by (simp add: search_spotify_def)

text \<open>
  Claim C6 does not hold of the search call: \<^verbatim>\<open>search_spotify\<close> has no handler, so for
  the query \<^verbatim>\<open>abba\<close> an exception of the client, here a refused token, leaves the
  function instead of giving the empty list and a message.
\<close>

theorem search_spotify_raises:
  "search_spotify (example_sp\<lparr>search := (\<lambda>q. Inl (ApiError ''401''))\<rparr>) ''abba''
     = Inl (ApiError ''401'')"
  by (simp add: search_spotify_def)

section \<open>Properties of loading and saving\<close>

lemma backfill_present: "release_year s \<noteq> None \<Longrightarrow> backfill sp s = s"
  by (simp add: backfill_def)

lemma release_year_backfill: "release_year (backfill sp s) \<noteq> None"
  by (simp add: backfill_def)

lemma backfill_idem: "backfill sp' (backfill sp s) = backfill sp s"
  by (simp add: backfill_present release_year_backfill)

text \<open>
  Claim C9. Loading a missing file gives the empty list. Loading a file gives one entry
  per entry of the file, in the same order. An entry that has the key \<^verbatim>\<open>release_year\<close>
  is returned as it is. An entry without it is returned with the key set and nothing
  else changed: to the first four characters of the release date when the client is
  there, the lookup of the entry's id returns a track and that track has a release date
  string; to \<^verbatim>\<open>'N/A'\<close> in every other case.
\<close>

theorem load_rankings_backfills:
  "load_rankings sp None = []
   \<and> length (load_rankings sp (Some entries)) = length entries
   \<and> (\<forall>i < length entries.
        release_year (load_rankings sp (Some entries) ! i) \<noteq> None
        \<and> (release_year (entries ! i) \<noteq> None \<longrightarrow>
             load_rankings sp (Some entries) ! i = entries ! i)
        \<and> (release_year (entries ! i) = None \<longrightarrow>
             (\<exists>y. load_rankings sp (Some entries) ! i = (entries ! i)\<lparr>release_year := Some y\<rparr>
                \<and> ((\<exists>c t d. sp = Some c \<and> track c (song_id (entries ! i)) = Inr t
                        \<and> release_date t = Str d \<and> y = take 4 d)
                    \<or> (y = ''N/A''
                        \<and> (sp = None
                            \<or> (\<exists>c. sp = Some c
                                 \<and> (isl (track c (song_id (entries ! i)))
                                     \<or> (\<exists>t. track c (song_id (entries ! i)) = Inr t
                                           \<and> (release_date t = Absent
                                               \<or> release_date t = Null))))))))))"
proof (intro conjI allI impI)
  fix i assume i: "i < length entries"
  then have nth: "load_rankings sp (Some entries) ! i = backfill sp (entries ! i)"
    by (simp add: load_rankings_def)
  show "release_year (load_rankings sp (Some entries) ! i) \<noteq> None"
    by (simp add: nth release_year_backfill)
  {
    assume "release_year (entries ! i) \<noteq> None"
    then show "load_rankings sp (Some entries) ! i = entries ! i"
      by (simp add: nth backfill_present)
  }
  {
    assume "release_year (entries ! i) = None"
    then show "\<exists>y. load_rankings sp (Some entries) ! i = (entries ! i)\<lparr>release_year := Some y\<rparr>
                \<and> ((\<exists>c t d. sp = Some c \<and> track c (song_id (entries ! i)) = Inr t
                        \<and> release_date t = Str d \<and> y = take 4 d)
                    \<or> (y = ''N/A''
                        \<and> (sp = None
                            \<or> (\<exists>c. sp = Some c
                                 \<and> (isl (track c (song_id (entries ! i)))
                                     \<or> (\<exists>t. track c (song_id (entries ! i)) = Inr t
                                           \<and> (release_date t = Absent
                                               \<or> release_date t = Null)))))))"
      unfolding nth
      by (auto simp: backfill_def release_year_of_def split: option.splits sum.splits field.splits)
  }
qed (simp_all add: load_rankings_def)

theorem load_rankings_backfills_witness:
  "release_year (hd [example_old_entry, example_entry ''b'' 2]) = None
   \<and> load_rankings (Some example_lookup_sp) (Some [example_old_entry, example_entry ''b'' 2])
     = [example_entry ''a'' 1, example_entry ''b'' 2]
   \<and> load_rankings (Some example_sp) (Some [example_old_entry, example_entry ''b'' 2])
     = [example_old_entry\<lparr>release_year := Some ''N/A''\<rparr>, example_entry ''b'' 2]
   \<and> load_rankings None (Some [example_old_entry, example_entry ''b'' 2])
     = [example_old_entry\<lparr>release_year := Some ''N/A''\<rparr>, example_entry ''b'' 2]
   \<and> load_rankings (Some example_sp) None = []"
proof -
  let ?es = "[example_old_entry, example_entry ''b'' 2]"
  have none: "release_year (?es ! 0) = None"
    by (simp add: example_old_entry_def)
  have kept: "release_year (?es ! 1) \<noteq> None"
    by (simp add: example_entry_def example_track_def)
  have track: "track example_sp (song_id (?es ! 0)) = Inl (ApiError ''403'')"
    by (simp add: example_sp_def)
  note inst = load_rankings_backfills [of "Some example_sp" ?es]
  from inst have len: "length (load_rankings (Some example_sp) (Some ?es)) = 2"
    and missing: "load_rankings (Some example_sp) None = []"
    by simp_all
  from inst have at0: "release_year (?es ! 0) = None \<longrightarrow>
      (\<exists>y. load_rankings (Some example_sp) (Some ?es) ! 0 = (?es ! 0)\<lparr>release_year := Some y\<rparr>
         \<and> ((\<exists>c t d. Some example_sp = Some c \<and> track c (song_id (?es ! 0)) = Inr t
                 \<and> release_date t = Str d \<and> y = take 4 d)
             \<or> (y = ''N/A''
                 \<and> (Some example_sp = None
                     \<or> (\<exists>c. Some example_sp = Some c
                          \<and> (isl (track c (song_id (?es ! 0)))
                              \<or> (\<exists>t. track c (song_id (?es ! 0)) = Inr t
                                    \<and> (release_date t = Absent
                                        \<or> release_date t = Null))))))))"
    by (elim conjE allE [of _ 0]) simp
  from inst have at1: "release_year (?es ! 1) \<noteq> None \<longrightarrow>
      load_rankings (Some example_sp) (Some ?es) ! 1 = ?es ! 1"
    by (elim conjE allE [of _ 1]) simp
  from at0 none
  have first: "\<exists>y. load_rankings (Some example_sp) (Some ?es) ! 0
                       = (?es ! 0)\<lparr>release_year := Some y\<rparr>
                  \<and> ((\<exists>c t d. Some example_sp = Some c \<and> track c (song_id (?es ! 0)) = Inr t
                          \<and> release_date t = Str d \<and> y = take 4 d)
                      \<or> y = ''N/A'')"
    by blast
  from at1 kept have second: "load_rankings (Some example_sp) (Some ?es) ! 1 = ?es ! 1"
    by blast
  from first track
  have first': "load_rankings (Some example_sp) (Some ?es) ! 0
                = example_old_entry\<lparr>release_year := Some ''N/A''\<rparr>"
    by auto
  have failing: "load_rankings (Some example_sp) (Some ?es)
                 = [example_old_entry\<lparr>release_year := Some ''N/A''\<rparr>, example_entry ''b'' 2]"
    using len first' second
    by (intro nth_equalityI) (auto simp: less_Suc_eq numeral_2_eq_2)
  have rest: "load_rankings (Some example_lookup_sp) (Some ?es)
                = [example_entry ''a'' 1, example_entry ''b'' 2]
              \<and> load_rankings None (Some ?es)
                = [example_old_entry\<lparr>release_year := Some ''N/A''\<rparr>, example_entry ''b'' 2]"
    by (simp add: load_rankings_def backfill_def example_lookup_sp_def example_sp_def
        example_raw_def release_year_of_def example_old_entry_def example_entry_def
        example_track_def)
  from none failing rest missing show ?thesis by simp
qed

text \<open>
  Claim C7, as stated, fails: saving what was loaded from a file with an entry that has no
  \<^verbatim>\<open>release_year\<close> writes a different array, in which that entry has the key.
\<close>

theorem save_load_counterexample:
  "save_rankings (load_rankings None (Some [example_old_entry]))
     = Some [example_old_entry\<lparr>release_year := Some ''N/A''\<rparr>]
   \<and> save_rankings (load_rankings None (Some [example_old_entry])) \<noteq> Some [example_old_entry]"
  by (simp add: save_rankings_def load_rankings_def backfill_def example_old_entry_def
      example_entry_def example_track_def)

text \<open>
  Claim C7, amended. For every persisted file in which every entry has the key
  \<^verbatim>\<open>release_year\<close>, saving immediately after loading writes the array that was on disk.
  For every persisted file, saving after loading is idempotent: doing it a second time,
  with any client, writes again what the first time wrote.
\<close>

theorem save_load_idempotent:
  "(list_all (\<lambda>s. release_year s \<noteq> None) entries \<longrightarrow>
      save_rankings (load_rankings sp (Some entries)) = Some entries)
   \<and> save_rankings (load_rankings sp' (save_rankings (load_rankings sp (Some entries))))
       = save_rankings (load_rankings sp (Some entries))"
proof
  show "list_all (\<lambda>s. release_year s \<noteq> None) entries \<longrightarrow>
        save_rankings (load_rankings sp (Some entries)) = Some entries"
    by (auto simp: save_rankings_def load_rankings_def list_all_iff backfill_present
        intro: map_idI)
  show "save_rankings (load_rankings sp' (save_rankings (load_rankings sp (Some entries))))
        = save_rankings (load_rankings sp (Some entries))"
    by (simp add: save_rankings_def load_rankings_def backfill_idem)
qed

theorem save_load_idempotent_witness:
  "list_all (\<lambda>s. release_year s \<noteq> None) [example_entry ''a'' 1, example_entry ''b'' 2]
   \<and> save_rankings (load_rankings None (Some [example_entry ''a'' 1, example_entry ''b'' 2]))
       = Some [example_entry ''a'' 1, example_entry ''b'' 2]"
proof -
  have h: "list_all (\<lambda>s. release_year s \<noteq> None) [example_entry ''a'' 1, example_entry ''b'' 2]"
    by (simp add: example_entry_def example_track_def)
  with save_load_idempotent [of "[example_entry ''a'' 1, example_entry ''b'' 2]" None None]
  show ?thesis by blast
qed

section \<open>Properties of the ranking store\<close>

lemma ranks_of_Inr:
  "ranks_of ss = Inr rs \<Longrightarrow> all_ranked ss \<and> rs = map (\<lambda>s. the (rank s)) ss"
proof (induction ss arbitrary: rs)
  case Nil
  then show ?case by (simp add: all_ranked_def)
next
  case (Cons s ss)
  from Cons.prems obtain r rs' where
    "rank s = Some r" "ranks_of ss = Inr rs'" "rs = r # rs'"
    by (auto split: option.splits sum.splits)
  with Cons.IH [of rs'] show ?case by (simp add: all_ranked_def)
qed

lemma store_sorted_iff:
  "store_sorted ss \<longleftrightarrow> all_ranked ss \<and> sorted (map (\<lambda>s. the (rank s)) ss)"
proof (cases "ranks_of ss")
  case (Inl e)
  then have "\<not> all_ranked ss" using ranks_of_all_ranked [of ss] by auto
  with Inl show ?thesis by (simp add: store_sorted_def)
next
  case (Inr rs)
  with ranks_of_Inr [OF Inr] show ?thesis by (simp add: store_sorted_def)
qed

lemma sorted_by_rank_Inr:
  assumes "sorted_by_rank objs addrs = Inr xs"
  shows "xs = sort_key (\<lambda>a. the (rank (objs ! a))) addrs"
    and "set xs = set addrs" and "length xs = length addrs"
    and "store_sorted (map (\<lambda>a. objs ! a) xs)"
proof -
  from assms have ranked: "list_all (\<lambda>a. rank (objs ! a) \<noteq> None) addrs"
    and xs: "xs = sort_key (\<lambda>a. the (rank (objs ! a))) addrs"
    by (auto simp: sorted_by_rank_def split: if_splits)
  show "xs = sort_key (\<lambda>a. the (rank (objs ! a))) addrs" by (rule xs)
  show s: "set xs = set addrs" by (simp add: xs)
  show "length xs = length addrs" by (simp add: xs)
  have "all_ranked (map (\<lambda>a. objs ! a) xs)"
    using ranked s by (simp add: all_ranked_def list_all_iff)
  moreover have "sorted (map (\<lambda>s. the (rank s)) (map (\<lambda>a. objs ! a) xs))"
    using sorted_sort_key [of "\<lambda>a. the (rank (objs ! a))" addrs]
    by (simp add: xs comp_def)
  ultimately show "store_sorted (map (\<lambda>a. objs ! a) xs)"
    by (simp add: store_sorted_iff)
qed

lemma remove_first_Inr:
  "remove_first objs v xs = Inr r \<Longrightarrow> \<exists>ys b zs. xs = ys @ b # zs \<and> r = ys @ zs \<and> objs ! b = v"
proof (induction xs arbitrary: r)
  case Nil
  then show ?case by simp
next
  case (Cons x xs)
  show ?case
  proof (cases "objs ! x = v")
    case True
    with Cons.prems have "r = xs" by simp
    with True show ?thesis by (intro exI [of _ "[]"]) auto
  next
    case False
    with Cons.prems obtain r' where r': "remove_first objs v xs = Inr r'" "r = x # r'"
      by (auto split: sum.splits)
    from Cons.IH [OF r'(1)] obtain ys b zs where
      "xs = ys @ b # zs" "r' = ys @ zs" "objs ! b = v" by blast
    with r'(2) show ?thesis by (intro exI [of _ "x # ys"]) auto
  qed
qed

lemma store_sorted_remove:
  "store_sorted (map f (ys @ b # zs)) \<Longrightarrow> store_sorted (map f (ys @ zs))"
  by (auto simp: store_sorted_iff all_ranked_def sorted_append)

lemma session_ok_start:
  assumes "case f0 of None \<Rightarrow> True | Some f \<Rightarrow> store_sorted f"
  shows "session_ok (start_session f0)"
proof (cases f0)
  case None
  then show ?thesis
    by (simp add: session_ok_def start_session_def load_rankings_def store_contents_def
        store_sorted_def)
next
  case (Some f)
  have r: "rank (backfill None x) = rank x" for x
    by (simp add: backfill_def)
  have c: "map (\<lambda>a. map (backfill None) f ! a) [0..<length f] = map (backfill None) f"
    using map_nth [of "map (backfill None) f"] by simp
  from assms Some have "store_sorted f" by simp
  then have "store_sorted (map (backfill None) f)"
    by (simp add: store_sorted_iff all_ranked_def list_all_iff comp_def r)
  with Some \<open>store_sorted f\<close> c show ?thesis
    by (simp add: session_ok_def start_session_def load_rankings_def store_contents_def
        list_all_iff)
qed

lemma session_ok_edit_rank:
  assumes "session_ok s" and "edit_rank idx new_rank s = Inr s'"
  shows "session_ok s'"
proof (cases "s' = s")
  case True
  with assms show ?thesis by simp
next
  case False
  with assms(2) obtain a r addrs where
    a: "a = ranked_songs s ! idx"
    and sb: "sorted_by_rank ((objects s)[a := (objects s ! a)\<lparr>rank := Some new_rank\<rparr>])
               (ranked_songs s) = Inr addrs"
    and s': "s' = s\<lparr>objects := (objects s)[a := (objects s ! a)\<lparr>rank := Some new_rank\<rparr>],
                   ranked_songs := addrs,
                   rankings_json := save_rankings
                     (map (\<lambda>b. (objects s)[a := (objects s ! a)\<lparr>rank := Some new_rank\<rparr>] ! b)
                        addrs)\<rparr>"
    by (auto simp: edit_rank_def Let_def split: if_splits option.splits sum.splits)
  from sorted_by_rank_Inr [OF sb] assms(1) show ?thesis
    by (simp add: s' session_ok_def store_contents_def save_rankings_def list_all_iff)
qed

lemma session_ok_remove_song:
  assumes "session_ok s" and "remove_song idx s = Inr s'"
  shows "session_ok s'"
proof (cases "s' = s")
  case True
  with assms show ?thesis by simp
next
  case False
  with assms(2) obtain addrs where
    rf: "remove_first (objects s) (objects s ! (ranked_songs s ! idx)) (ranked_songs s) = Inr addrs"
    and s': "s' = s\<lparr>ranked_songs := addrs,
                   rankings_json := save_rankings (map (\<lambda>a. objects s ! a) addrs)\<rparr>"
    by (auto simp: remove_song_def split: if_splits sum.splits)
  from remove_first_Inr [OF rf] obtain ys b zs where
    sp: "ranked_songs s = ys @ b # zs" "addrs = ys @ zs" by blast
  from assms(1) have "store_sorted (map (\<lambda>a. objects s ! a) (ys @ b # zs))"
    by (simp add: session_ok_def store_contents_def sp)
  then have "store_sorted (map (\<lambda>a. objects s ! a) (ys @ zs))"
    by (rule store_sorted_remove)
  with assms(1) sp show ?thesis
    by (simp add: s' session_ok_def store_contents_def save_rankings_def)
qed

lemma session_ok_add_search:
  assumes "session_ok s" and "add_search song r s = Inr s'"
  shows "session_ok s'"
proof (cases "s' = s")
  case True
  with assms show ?thesis by simp
next
  case False
  let ?objs = "objects s @ [song\<lparr>rank := Some r\<rparr>]"
  from False assms(2) obtain addrs where
    sb: "sorted_by_rank ?objs (ranked_songs s @ [length (objects s)]) = Inr addrs"
    and s': "s' = s\<lparr>objects := ?objs, ranked_songs := addrs,
                   rankings_json := save_rankings (map (\<lambda>a. ?objs ! a) addrs)\<rparr>"
    by (auto simp: add_search_def Let_def split: if_splits sum.splits)
  from sorted_by_rank_Inr [OF sb] assms(1) show ?thesis
    by (auto simp: s' session_ok_def store_contents_def save_rankings_def list_all_iff)
qed

lemma session_ok_add_suggestion:
  assumes "session_ok s" and "add_suggestion idx r s = Inr s'"
  shows "session_ok s'"
proof (cases "s' = s")
  case True
  with assms show ?thesis by simp
next
  case False
  let ?a = "suggestions s ! idx"
  let ?objs = "(objects s)[?a := (objects s ! ?a)\<lparr>rank := Some r\<rparr>]"
  from False assms(2) obtain addrs where
    idx: "idx < length (suggestions s)"
    and sb: "sorted_by_rank ?objs (ranked_songs s @ [?a]) = Inr addrs"
    and s': "s' = s\<lparr>objects := ?objs, ranked_songs := addrs,
                   rankings_json := save_rankings (map (\<lambda>a. ?objs ! a) addrs)\<rparr>"
    by (auto simp: add_suggestion_def Let_def split: if_splits sum.splits)
  from assms(1) idx have "?a < length (objects s)"
    by (simp add: session_ok_def list_all_iff)
  with sorted_by_rank_Inr [OF sb] assms(1) show ?thesis
    by (auto simp: s' session_ok_def store_contents_def save_rankings_def list_all_iff)
qed

lemma session_ok_load_suggestions:
  assumes "session_ok s"
  shows "session_ok (load_suggestions sp ts now s)"
proof -
  have "store_contents (s\<lparr>objects := objects s @ xs, suggestions := ys\<rparr>) = store_contents s"
    for xs ys
    using assms by (auto simp: session_ok_def store_contents_def list_all_iff nth_append)
  with assms show ?thesis
    by (auto simp: load_suggestions_def Let_def session_ok_def list_all_iff)
qed

lemma reachable_session_ok: "reachable s \<Longrightarrow> session_ok s"
proof (induction rule: reachable.induct)
  case first_start
  show ?case by (rule session_ok_start) simp
next
  case (restart s)
  then show ?case
    by (intro session_ok_start) (simp add: session_ok_def)
qed (auto intro: session_ok_edit_rank session_ok_remove_song session_ok_add_search
      session_ok_add_suggestion session_ok_load_suggestions)


lemmas example_defs =
  example_session_def example_ranked_session_def example_suggested_session_def
  example_entry_def example_track_def

lemmas handler_defs =
  start_session_def load_rankings_def add_search_def add_suggestion_def edit_rank_def
  remove_song_def load_suggestions_def store_contents_def sorted_by_rank_def save_rankings_def
  Let_def

lemma example_session_steps:
  "add_search (example_track ''b'') 2 (start_session None)
     = Inr \<lparr>objects = [example_entry ''b'' 2], ranked_songs = [0], suggestions = [],
            rankings_json = Some [example_entry ''b'' 2]\<rparr>"
  "add_search (example_track ''a'') 1
     \<lparr>objects = [example_entry ''b'' 2], ranked_songs = [0], suggestions = [],
      rankings_json = Some [example_entry ''b'' 2]\<rparr>
     = Inr \<lparr>objects = [example_entry ''b'' 2, example_entry ''a'' 1], ranked_songs = [1, 0],
            suggestions = [],
            rankings_json = Some [example_entry ''a'' 1, example_entry ''b'' 2]\<rparr>"
  "edit_rank 0 3
     \<lparr>objects = [example_entry ''b'' 2, example_entry ''a'' 1], ranked_songs = [1, 0],
      suggestions = [],
      rankings_json = Some [example_entry ''a'' 1, example_entry ''b'' 2]\<rparr>
     = Inr example_session"
  by (simp_all add: handler_defs example_defs)

lemma map_insort_key:
  "map g (insort_key (\<lambda>a. f (g a)) x xs) = insort_key f (g x) (map g xs)"
  by (induction xs) simp_all

lemma map_sort_key:
  "map g (sort_key (\<lambda>a. f (g a)) xs) = sort_key f (map g xs)"
  by (induction xs) (simp_all add: map_insort_key)

lemma added_by_sort:
  assumes ranked: "all_ranked (map (\<lambda>a. objs ! a) addrs)"
    and old: "map (\<lambda>a. objs ! a) addrs = store_contents s @ [entry]"
    and s': "s' = s\<lparr>objects := objs,
                   ranked_songs := sort_key (\<lambda>a. the (rank (objs ! a))) addrs,
                   rankings_json :=
                     save_rankings (map (\<lambda>a. objs ! a)
                                      (sort_key (\<lambda>a. the (rank (objs ! a))) addrs))\<rparr>"
  shows "sorted_by_rank objs addrs = Inr (sort_key (\<lambda>a. the (rank (objs ! a))) addrs)"
    and "added s s' entry"
proof -
  from ranked show sb: "sorted_by_rank objs addrs = Inr (sort_key (\<lambda>a. the (rank (objs ! a))) addrs)"
    by (simp add: sorted_by_rank_def all_ranked_def list_all_iff)
  have c: "store_contents s' = sort_key (\<lambda>x. the (rank x)) (store_contents s @ [entry])"
    using map_sort_key [of "\<lambda>a. objs ! a" "\<lambda>x. the (rank x)" addrs] old
    by (simp add: s' store_contents_def)
  have "store_sorted (store_contents s')"
    using sorted_by_rank_Inr(4) [OF sb] by (simp add: s' store_contents_def)
  moreover have "rankings_json s' = Some (store_contents s')"
    by (simp add: s' store_contents_def save_rankings_def)
  ultimately show "added s s' entry"
    using c by (simp add: added_def)
qed

lemma add_search_appends:
  assumes ok: "session_ok s" and new: "song \<notin> set (store_contents s)"
  shows "\<exists>s'. add_search song r s = Inr s' \<and> added s s' (song\<lparr>rank := Some r\<rparr>)"
proof -
  let ?e = "song\<lparr>rank := Some r\<rparr>"
  let ?objs = "objects s @ [?e]"
  let ?addrs = "ranked_songs s @ [length (objects s)]"
  let ?s' = "s\<lparr>objects := ?objs,
               ranked_songs := sort_key (\<lambda>a. the (rank (?objs ! a))) ?addrs,
               rankings_json :=
                 save_rankings (map (\<lambda>a. ?objs ! a)
                                  (sort_key (\<lambda>a. the (rank (?objs ! a))) ?addrs))\<rparr>"
  from ok have valid: "\<forall>a \<in> set (ranked_songs s). a < length (objects s)"
    and ranked: "all_ranked (store_contents s)"
    by (simp_all add: session_ok_def list_all_iff store_sorted_iff)
  from valid have old: "map (\<lambda>a. ?objs ! a) ?addrs = store_contents s @ [?e]"
    by (simp add: store_contents_def nth_append)
  have all: "all_ranked (map (\<lambda>a. ?objs ! a) ?addrs)"
    unfolding old using ranked by (simp add: all_ranked_def)
  from added_by_sort [OF all old refl [of ?s']] new
  have "add_search song r s = Inr ?s'" and "added s ?s' ?e"
    by (simp_all add: add_search_def Let_def)
  then show ?thesis by blast
qed

lemma add_suggestion_appends:
  assumes ok: "session_ok s" and idx: "idx < length (suggestions s)"
    and new: "objects s ! (suggestions s ! idx) \<notin> set (store_contents s)"
  shows "\<exists>s'. add_suggestion idx r s = Inr s'
              \<and> added s s' ((objects s ! (suggestions s ! idx))\<lparr>rank := Some r\<rparr>)"
proof -
  let ?a = "suggestions s ! idx"
  let ?e = "(objects s ! ?a)\<lparr>rank := Some r\<rparr>"
  let ?objs = "(objects s)[?a := ?e]"
  let ?addrs = "ranked_songs s @ [?a]"
  let ?s' = "s\<lparr>objects := ?objs,
               ranked_songs := sort_key (\<lambda>a. the (rank (?objs ! a))) ?addrs,
               rankings_json :=
                 save_rankings (map (\<lambda>a. ?objs ! a)
                                  (sort_key (\<lambda>a. the (rank (?objs ! a))) ?addrs))\<rparr>"
  from ok idx have a: "?a < length (objects s)"
    and ranked: "all_ranked (store_contents s)"
    by (simp_all add: session_ok_def list_all_iff store_sorted_iff)
  from new have fresh: "?a \<notin> set (ranked_songs s)"
    by (auto simp: store_contents_def)
  then have "map (\<lambda>b. ?objs ! b) (ranked_songs s) = store_contents s"
    unfolding store_contents_def
    by (intro map_cong refl nth_list_update_neq) auto
  with a have old: "map (\<lambda>b. ?objs ! b) ?addrs = store_contents s @ [?e]"
    by simp
  have all: "all_ranked (map (\<lambda>b. ?objs ! b) ?addrs)"
    unfolding old using ranked by (simp add: all_ranked_def)
  from added_by_sort [OF all old refl [of ?s']] new idx
  have "add_suggestion idx r s = Inr ?s'" and "added s ?s' ?e"
    by (simp_all add: add_suggestion_def Let_def)
  then show ?thesis by blast
qed

lemma remove_first_present:
  "v \<in> set (map (\<lambda>a. objs ! a) xs) \<Longrightarrow> \<exists>r. remove_first objs v xs = Inr r"
  by (induction xs) (auto split: sum.splits)

lemma edit_rank_returns:
  assumes "session_ok s"
  shows "\<exists>s'. edit_rank idx new_rank s = Inr s'"
proof (cases "idx < length (ranked_songs s)")
  case False
  then show ?thesis by (simp add: edit_rank_def)
next
  case True
  let ?a = "ranked_songs s ! idx"
  let ?objs = "(objects s)[?a := (objects s ! ?a)\<lparr>rank := Some new_rank\<rparr>]"
  from assms have ranked: "\<forall>b \<in> set (ranked_songs s). rank (objects s ! b) \<noteq> None"
    by (simp add: session_ok_def store_sorted_iff all_ranked_def store_contents_def list_all_iff)
  with True obtain r0 where r0: "rank (objects s ! ?a) = Some r0"
    by (metis nth_mem not_None_eq)
  have "\<forall>b \<in> set (ranked_songs s). rank (?objs ! b) \<noteq> None"
  proof
    fix b assume b: "b \<in> set (ranked_songs s)"
    show "rank (?objs ! b) \<noteq> None"
    proof (cases "b = ?a \<and> ?a < length (objects s)")
      case True
      then show ?thesis by simp
    next
      case False
      then have "?objs ! b = objects s ! b"
        by (cases "b = ?a") (simp_all add: list_update_beyond)
      with ranked b show ?thesis by simp
    qed
  qed
  then have "sorted_by_rank ?objs (ranked_songs s)
             = Inr (sort_key (\<lambda>a. the (rank (?objs ! a))) (ranked_songs s))"
    by (simp add: sorted_by_rank_def list_all_iff)
  with True r0 show ?thesis
    by (simp add: edit_rank_def Let_def)
qed

lemma remove_song_returns: "\<exists>s'. remove_song idx s = Inr s'"
proof (cases "idx < length (ranked_songs s)")
  case False
  then show ?thesis by (simp add: remove_song_def)
next
  case True
  then have "objects s ! (ranked_songs s ! idx) \<in> set (map (\<lambda>a. objects s ! a) (ranked_songs s))"
    by simp
  from remove_first_present [OF this] True show ?thesis
    by (auto simp: remove_song_def)
qed

lemma add_search_returns:
  assumes "session_ok s"
  shows "\<exists>s'. add_search song r s = Inr s'"
proof (cases "song \<in> set (store_contents s)")
  case True
  then show ?thesis by (simp add: add_search_def)
next
  case False
  from add_search_appends [OF assms False] show ?thesis by blast
qed

lemma add_suggestion_returns:
  assumes "session_ok s"
  shows "\<exists>s'. add_suggestion idx r s = Inr s'"
proof (cases "idx < length (suggestions s)
              \<and> objects s ! (suggestions s ! idx) \<notin> set (store_contents s)")
  case False
  then show ?thesis by (auto simp: add_suggestion_def)
next
  case True
  with add_suggestion_appends [OF assms, of idx r] show ?thesis by blast
qed

text \<open>
  Claim C8. In every session that the program can reach from its first start (no file),
  through any sequence of rank edits, removals, additions from the search results or
  from the suggestions, loads of suggestions and restarts from the file it saved, the
  ranked list is sorted ascending by rank. From such a session each of the mutating
  handlers returns without an exception, and the ranked list it leaves is sorted
  ascending by rank again.
\<close>

theorem store_always_sorted:
  assumes "reachable s"
  shows "store_sorted (store_contents s)
       \<and> (\<exists>s'. edit_rank idx new_rank s = Inr s' \<and> store_sorted (store_contents s'))
       \<and> (\<exists>s'. remove_song idx s = Inr s' \<and> store_sorted (store_contents s'))
       \<and> (\<exists>s'. add_search song r s = Inr s' \<and> store_sorted (store_contents s'))
       \<and> (\<exists>s'. add_suggestion idx r s = Inr s' \<and> store_sorted (store_contents s'))"
proof -
  from assms have ok: "session_ok s" by (rule reachable_session_ok)
  have sorted: "store_sorted (store_contents t)" if "session_ok t" for t
    using that by (simp add: session_ok_def)
  from edit_rank_returns [OF ok] obtain s1 where s1: "edit_rank idx new_rank s = Inr s1" ..
  from remove_song_returns obtain s2 where s2: "remove_song idx s = Inr s2" ..
  from add_search_returns [OF ok] obtain s3 where s3: "add_search song r s = Inr s3" ..
  from add_suggestion_returns [OF ok] obtain s4 where s4: "add_suggestion idx r s = Inr s4" ..
  show ?thesis
    using sorted [OF ok]
      s1 sorted [OF session_ok_edit_rank [OF ok s1]]
      s2 sorted [OF session_ok_remove_song [OF ok s2]]
      s3 sorted [OF session_ok_add_search [OF ok s3]]
      s4 sorted [OF session_ok_add_suggestion [OF ok s4]]
    by simp
qed

theorem store_always_sorted_witness:
  "reachable example_session
   \<and> store_contents example_session = [example_entry ''b'' 2, example_entry ''a'' 3]
   \<and> store_sorted [example_entry ''b'' 2, example_entry ''a'' 3]"
proof -
  have r: "reachable example_session"
    by (rule edited [OF added_search [OF added_search [OF first_start]]])
       (rule example_session_steps)+
  have c: "store_contents example_session = [example_entry ''b'' 2, example_entry ''a'' 3]"
    by (simp add: store_contents_def example_session_def)
  from store_always_sorted [OF r]
  have "store_sorted (store_contents example_session)" by blast
  with r c show ?thesis by simp
qed

text \<open>
  Claim C2, as stated, fails in both directions, because the membership test compares
  the dictionary as it is before the chosen rank is written into it. A search result has
  no rank, so it is never equal to an entry of the store: adding the track ''a'' at rank 5
  a second time appends a second equal entry and writes the file. A suggestion that was
  added at rank 1 in this session is the very dictionary that the store holds: adding it
  again at rank 7 changes nothing, although no entry with that content and rank 7 exists.
\<close>

theorem add_guard_counterexample:
  "add_search (example_track ''a'') 5 (start_session None) = Inr example_ranked_session
   \<and> (example_track ''a'')\<lparr>rank := Some 5\<rparr> \<in> set (store_contents example_ranked_session)
   \<and> add_search (example_track ''a'') 5 example_ranked_session
     = Inr \<lparr>objects = [example_entry ''a'' 5, example_entry ''a'' 5],
            ranked_songs = [0, 1],
            suggestions = [],
            rankings_json = Some [example_entry ''a'' 5, example_entry ''a'' 5]\<rparr>
   \<and> add_suggestion 0 1 (load_suggestions example_sp example_ms 35000000000 (start_session None))
     = Inr example_suggested_session
   \<and> (objects example_suggested_session ! 0)\<lparr>rank := Some 7\<rparr>
       \<notin> set (store_contents example_suggested_session)
   \<and> add_suggestion 0 7 example_suggested_session = Inr example_suggested_session"
  by (simp add: handler_defs example_defs example_run)


text \<open>
  Claim C2, amended. In a session whose lists are well formed and sorted, adding is a
  no-op, the session and with it the store and the file unchanged, when the candidate
  dictionary exactly as it is held at the click (with the rank it still carries from an
  earlier addition in this session, if any) is equal to an entry of the store. When no
  entry of the store agrees with the candidate on all fields other than the rank, adding
  appends the candidate with the chosen rank, makes the store one longer, leaves it sorted
  ascending by rank, and writes it to the file.
\<close>

theorem add_guard:
  assumes "session_ok s"
  shows "(song \<in> set (store_contents s) \<longrightarrow> add_search song r s = Inr s)
       \<and> (idx < length (suggestions s)
            \<and> objects s ! (suggestions s ! idx) \<in> set (store_contents s)
          \<longrightarrow> add_suggestion idx r s = Inr s)
       \<and> ((\<forall>e \<in> set (store_contents s). e\<lparr>rank := None\<rparr> \<noteq> song\<lparr>rank := None\<rparr>)
          \<longrightarrow> (\<exists>s'. add_search song r s = Inr s' \<and> added s s' (song\<lparr>rank := Some r\<rparr>)))
       \<and> (idx < length (suggestions s)
            \<and> (\<forall>e \<in> set (store_contents s).
                  e\<lparr>rank := None\<rparr> \<noteq> (objects s ! (suggestions s ! idx))\<lparr>rank := None\<rparr>)
          \<longrightarrow> (\<exists>s'. add_suggestion idx r s = Inr s'
                    \<and> added s s' ((objects s ! (suggestions s ! idx))\<lparr>rank := Some r\<rparr>)))"
proof (intro conjI impI)
  assume "song \<in> set (store_contents s)"
  then show "add_search song r s = Inr s" by (simp add: add_search_def)
next
  assume "idx < length (suggestions s)
          \<and> objects s ! (suggestions s ! idx) \<in> set (store_contents s)"
  then show "add_suggestion idx r s = Inr s" by (simp add: add_suggestion_def)
next
  assume "\<forall>e \<in> set (store_contents s). e\<lparr>rank := None\<rparr> \<noteq> song\<lparr>rank := None\<rparr>"
  then have "song \<notin> set (store_contents s)" by blast
  from add_search_appends [OF assms this]
  show "\<exists>s'. add_search song r s = Inr s' \<and> added s s' (song\<lparr>rank := Some r\<rparr>)" .
next
  assume h: "idx < length (suggestions s)
          \<and> (\<forall>e \<in> set (store_contents s).
                e\<lparr>rank := None\<rparr> \<noteq> (objects s ! (suggestions s ! idx))\<lparr>rank := None\<rparr>)"
  then have "objects s ! (suggestions s ! idx) \<notin> set (store_contents s)" by blast
  from add_suggestion_appends [OF assms _ this] h
  show "\<exists>s'. add_suggestion idx r s = Inr s'
              \<and> added s s' ((objects s ! (suggestions s ! idx))\<lparr>rank := Some r\<rparr>)"
    by blast
qed


theorem add_guard_witness:
  "session_ok example_suggested_session
   \<and> objects example_suggested_session ! (suggestions example_suggested_session ! 0)
       \<in> set (store_contents example_suggested_session)
   \<and> add_suggestion 0 7 example_suggested_session = Inr example_suggested_session
   \<and> (\<exists>s'. add_suggestion 1 9 example_suggested_session = Inr s'
          \<and> store_contents s'
              = [(example_track ''a'')\<lparr>play_count := Some 2, rank := Some 1\<rparr>,
                 (example_track ''b'')\<lparr>play_count := Some 0, rank := Some 9\<rparr>]
          \<and> rankings_json s' = Some (store_contents s'))
   \<and> (\<exists>s'. add_search (example_track ''c'') 0 example_suggested_session = Inr s'
          \<and> store_contents s'
              = [example_entry ''c'' 0,
                 (example_track ''a'')\<lparr>play_count := Some 2, rank := Some 1\<rparr>])"
proof -
  let ?s = example_suggested_session
  let ?a = "(example_track ''a'')\<lparr>play_count := Some 2, rank := Some 1\<rparr>"
  let ?b = "(example_track ''b'')\<lparr>play_count := Some 0\<rparr>"
  have ok: "session_ok ?s"
    by (simp add: session_ok_def store_sorted_def store_contents_def example_defs)
  have c: "store_contents ?s = [?a]"
    by (simp add: store_contents_def example_suggested_session_def)
  have o0: "objects ?s ! (suggestions ?s ! 0) = ?a"
    and o1: "objects ?s ! (suggestions ?s ! 1) = ?b"
    and len: "length (suggestions ?s) = 2"
    by (simp_all add: example_suggested_session_def)
  have held: "objects ?s ! (suggestions ?s ! 0) \<in> set (store_contents ?s)"
    by (simp add: o0 c)
  from add_guard [OF ok, where idx = 0 and r = 7] held len
  have same: "add_suggestion 0 7 ?s = Inr ?s"
    by simp
  have "\<forall>e \<in> set (store_contents ?s).
          e\<lparr>rank := None\<rparr> \<noteq> (objects ?s ! (suggestions ?s ! 1))\<lparr>rank := None\<rparr>"
    unfolding c o1 by (simp add: example_track_def)
  with add_guard [OF ok, where idx = 1 and r = 9] len obtain s1 where
    s1: "add_suggestion 1 9 ?s = Inr s1"
    and a1: "added ?s s1 ((objects ?s ! (suggestions ?s ! 1))\<lparr>rank := Some 9\<rparr>)"
    by auto
  from a1 have c1: "store_contents s1 = [?a, ?b\<lparr>rank := Some 9\<rparr>]"
    and f1: "rankings_json s1 = Some (store_contents s1)"
    unfolding added_def c o1 by (simp_all add: example_track_def)
  have "\<forall>e \<in> set (store_contents ?s). e\<lparr>rank := None\<rparr> \<noteq> (example_track ''c'')\<lparr>rank := None\<rparr>"
    unfolding c by (simp add: example_track_def)
  with add_guard [OF ok, where song = "example_track ''c''" and r = 0] obtain s2 where
    s2: "add_search (example_track ''c'') 0 ?s = Inr s2"
    and a2: "added ?s s2 ((example_track ''c'')\<lparr>rank := Some 0\<rparr>)"
    by blast
  from a2 have c2: "store_contents s2 = [example_entry ''c'' 0, ?a]"
    unfolding added_def c by (simp add: example_entry_def example_track_def)
  from ok held same s1 c1 f1 s2 c2 show ?thesis by simp
qed

text \<open>
  Why the test cannot hold for a search result: the records that \<^verbatim>\<open>search_spotify\<close>
  returns have no rank, and such a record differs from every entry of a store whose
  entries all have one.
\<close>

lemma search_records_unranked:
  "search_records ts = Inr songs \<Longrightarrow> list_all (\<lambda>s. rank s = None) songs"
proof (induction ts arbitrary: songs)
  case Nil
  then show ?case by simp
next
  case (Cons t ts)
  from Cons.prems obtain s ss where
    s: "search_record t = Inr s" and ss: "search_records ts = Inr ss" and songs: "songs = s # ss"
    by (auto split: sum.splits)
  from s have "rank s = None"
    by (auto simp: search_record_def split: list.splits sum.splits)
  with Cons.IH [OF ss] songs show ?case by simp
qed

lemma search_spotify_unranked:
  "search_spotify sp query = Inr songs \<Longrightarrow> list_all (\<lambda>s. rank s = None) songs"
  by (auto simp: search_spotify_def search_records_unranked split: if_splits sum.splits)

lemma unranked_not_in_store:
  "store_sorted (store_contents s) \<Longrightarrow> rank song = None \<Longrightarrow> song \<notin> set (store_contents s)"
  by (auto simp: store_sorted_iff all_ranked_def list_all_iff)

end
